theory Spec2Isabelle
  imports Complex_Main
begin

section \<open>Monte Carlo localisation: \<open>particle_filter/scripts/pf_level2.py\<close>\<close>

text \<open>
  A shallow embedding of the particle filter of \<open>pf_level2.py\<close>: the occupancy field
  query, the particle operations (motion, sensor weighting, normalisation, resampling,
  pose estimate) and the scan callback that gates them.

  Conventions of the embedding.
  \<^item> A float is a \<open>pyfloat\<close>: a real number, an infinity or \<open>nan\<close>. Rounding and
    the sign of zero are not modelled; arithmetic on numbers is exact. Whether a stored
    weight is a Python \<open>float\<close> or a \<open>numpy.float64\<close> is kept beside its value, since
    the two divide by zero differently.
  \<^item> A raised exception is the \<open>Inl\<close> branch of a sum, or the second component of a
    pair when the state the exception leaves behind matters.
  \<^item> The random draws of numpy are inputs of the functions that make them.
  \<^item> What the ROS libraries do (tf lookups, quaternion conversions, publishing) is
    outside the file: a publish call is recorded in an event log, a transform lookup is
    an input.
\<close>

subsection \<open>Python values\<close>

datatype pyfloat = Num real | PInf | NInf | NaN

datatype py_error = ZeroDivisionError | KeyError | ValueError | IndexError | TypeError

text \<open>
  \<open>a + b\<close> and \<open>a * b\<close> on floats, as IEEE arithmetic has them: \<open>nan\<close> propagates,
  \<open>inf - inf\<close> and \<open>inf * 0\<close> are \<open>nan\<close>.
\<close>

fun fadd :: "pyfloat \<Rightarrow> pyfloat \<Rightarrow> pyfloat" where
  "fadd (Num a) (Num b) = Num (a + b)"
| "fadd NaN _ = NaN"
| "fadd _ NaN = NaN"
| "fadd PInf NInf = NaN"
| "fadd NInf PInf = NaN"
| "fadd PInf _ = PInf"
| "fadd _ PInf = PInf"
| "fadd NInf _ = NInf"
| "fadd _ NInf = NInf"

definition signed_inf :: "real \<Rightarrow> pyfloat" where
  "signed_inf r = (if 0 < r then PInf else if r < 0 then NInf else NaN)"

fun fmul :: "pyfloat \<Rightarrow> pyfloat \<Rightarrow> pyfloat" where
  "fmul (Num a) (Num b) = Num (a * b)"
| "fmul NaN _ = NaN"
| "fmul _ NaN = NaN"
| "fmul PInf (Num b) = signed_inf b"
| "fmul (Num a) PInf = signed_inf a"
| "fmul NInf (Num b) = signed_inf (- b)"
| "fmul (Num a) NInf = signed_inf (- a)"
| "fmul PInf PInf = PInf"
| "fmul NInf NInf = PInf"
| "fmul PInf NInf = NInf"
| "fmul NInf PInf = NInf"

text \<open>
  The IEEE quotient, which numpy returns also for a zero divisor (with a warning):
  \<open>0 / 0\<close> is \<open>nan\<close>, another number over zero is the infinity of its sign.
\<close>

fun quotient :: "pyfloat \<Rightarrow> pyfloat \<Rightarrow> pyfloat" where
  "quotient NaN _ = NaN"
| "quotient _ NaN = NaN"
| "quotient (Num a) (Num b) = (if b = 0 then signed_inf a else Num (a / b))"
| "quotient PInf (Num b) = (if b < 0 then NInf else PInf)"
| "quotient NInf (Num b) = (if b < 0 then PInf else NInf)"
| "quotient (Num a) PInf = Num 0"
| "quotient (Num a) NInf = Num 0"
| "quotient _ _ = NaN"

text \<open>
  \<open>a / b\<close>. When both operands are Python floats a zero divisor raises
  \<open>ZeroDivisionError\<close>, whatever the dividend is. When one of them is a
  \<open>numpy.float64\<close> (\<open>numpy\<close> below), numpy computes the quotient and nothing is raised.
\<close>

definition fdiv :: "bool \<Rightarrow> pyfloat \<Rightarrow> pyfloat \<Rightarrow> py_error + pyfloat" where
  "fdiv numpy a b =
     (if b = Num 0 \<and> \<not> numpy then Inl ZeroDivisionError else Inr (quotient a b))"

text \<open>\<open>int(r)\<close> on a float: truncation towards zero.\<close>

definition py_int :: "real \<Rightarrow> int" where
  "py_int r = (if 0 \<le> r then \<lfloor>r\<rfloor> else \<lceil>r\<rceil>)"

text \<open>\<open>a % b\<close> on floats, for a positive \<open>b\<close>: the result has the sign of \<open>b\<close>.\<close>

definition py_fmod :: "real \<Rightarrow> real \<Rightarrow> real" where
  "py_fmod a b = a - b * of_int \<lfloor>a / b\<rfloor>"

text \<open>\<open>math.atan2(y, x)\<close>: the angle of the point \<open>(x, y)\<close>, in \<open>(-pi, pi]\<close>.\<close>

definition atan2 :: "real \<Rightarrow> real \<Rightarrow> real" where
  "atan2 y x =
     (if 0 < x then arctan (y / x)
      else if x < 0 then (if 0 \<le> y then arctan (y / x) + pi else arctan (y / x) - pi)
      else if 0 < y then pi / 2
      else if y < 0 then - (pi / 2)
      else 0)"

subsection \<open>The occupancy field\<close>

text \<open>
  \<open>map.info\<close> of a \<open>nav_msgs/OccupancyGrid\<close>: \<open>width\<close> and \<open>height\<close> are unsigned,
  \<open>resolution\<close> and the origin are floats. \<open>closest_occupied\<close> is the dictionary
  \<open>OccupancyField.__init__\<close> fills, from the cell index \<open>i + j * width\<close> to the distance
  of cell \<open>(i, j)\<close> to the nearest occupied cell, in metres.
\<close>

record map_info =
  width :: nat
  height :: nat
  resolution :: real
  origin_x :: real
  origin_y :: real

record occupancy_field =
  info :: map_info
  closest_occupied :: "int \<rightharpoonup> real"

text \<open>
  \<open>OccupancyField.get_closest_obstacle_distance\<close> (lines 159--174). The two divisions
  raise on a zero resolution; the dictionary lookup raises \<open>KeyError\<close> on a missing
  index.
\<close>

definition get_closest_obstacle_distance ::
  "occupancy_field \<Rightarrow> real \<Rightarrow> real \<Rightarrow> py_error + pyfloat" where
  "get_closest_obstacle_distance f x y =
     (let m = info f in
      if resolution m = 0 then Inl ZeroDivisionError
      else
        let x_coord = py_int ((x - origin_x m) / resolution m);
            y_coord = py_int ((y - origin_y m) / resolution m)
        in
          if x_coord > int (width m) \<or> x_coord < 0 then Inr NaN
          else if y_coord > int (height m) \<or> y_coord < 0 then Inr NaN
          else
            let ind = x_coord + y_coord * int (width m) in
            if ind \<ge> int (width m) * int (height m) \<or> ind < 0 then Inr NaN
            else (case closest_occupied f ind of
                    None \<Rightarrow> Inl KeyError
                  | Some d \<Rightarrow> Inr (Num d)))"

text \<open>
  A two by two map of resolution 1 at the origin whose cell \<open>(0, 0)\<close> is occupied, with
  the distances \<open>__init__\<close> computes for it: cell \<open>(1, 0)\<close> is index 1, cell \<open>(0, 1)\<close> is
  index 2, cell \<open>(1, 1)\<close> is index 3.
\<close>

definition corner_map :: occupancy_field where
  "corner_map =
     \<lparr>info = \<lparr>width = 2, height = 2, resolution = 1, origin_x = 0, origin_y = 0\<rparr>,
      closest_occupied = [0 \<mapsto> 0, 1 \<mapsto> 1, 2 \<mapsto> 1, 3 \<mapsto> sqrt 2]\<rparr>"

subsection \<open>Particles\<close>

text \<open>
  \<open>class Particle\<close>: the fields \<open>x\<close>, \<open>y\<close>, \<open>theta\<close> and \<open>w\<close>. The pose is kept
  as real numbers; the weight is a float that may be \<open>nan\<close>, since the sensor step
  can make it so. \<open>w_numpy\<close> says that the object stored in \<open>w\<close> is a
  \<open>numpy.float64\<close> and not a Python \<open>float\<close>: the sensor step stores one, and so does
  a division in which one takes part. \<open>Particle(x, y, theta)\<close> sets the weight to its
  default \<open>1.0\<close>, a Python float.
\<close>

record particle =
  p_x :: real
  p_y :: real
  p_theta :: real
  p_w :: pyfloat
  w_numpy :: bool

definition Particle :: "real \<Rightarrow> real \<Rightarrow> real \<Rightarrow> particle" where
  "Particle a b t = \<lparr>p_x = a, p_y = b, p_theta = t, p_w = Num 1, w_numpy = False\<rparr>"

text \<open>The weights of the data model: numbers that are not negative.\<close>

definition nonneg_weight :: "particle \<Rightarrow> bool" where
  "nonneg_weight p = (case p_w p of Num v \<Rightarrow> 0 \<le> v | _ \<Rightarrow> False)"

definition TAU :: real where
  "TAU = pi * 2"

subsection \<open>Normalising the weights\<close>

text \<open>
  \<open>ParticleFilter.normalize_particles\<close> (lines 464--471). The first loop adds the
  weights up from the integer \<open>0\<close>: the sum is a \<open>numpy.float64\<close> as soon as one weight
  is. The second loop divides each weight by the sum, and stores a \<open>numpy.float64\<close>
  when the weight or the sum is one. A division that raises does so at the first
  particle, so an exception leaves every weight as it was.
\<close>

definition weight_sum :: "particle list \<Rightarrow> pyfloat" where
  "weight_sum cloud = foldl fadd (Num 0) (map p_w cloud)"

definition sum_numpy :: "particle list \<Rightarrow> bool" where
  "sum_numpy cloud = list_ex w_numpy cloud"

fun divide_weights :: "bool \<Rightarrow> pyfloat \<Rightarrow> particle list \<Rightarrow> py_error + particle list" where
  "divide_weights np s [] = Inr []"
| "divide_weights np s (p # ps) =
     (case fdiv (w_numpy p \<or> np) (p_w p) s of
        Inl e \<Rightarrow> Inl e
      | Inr q \<Rightarrow>
          (case divide_weights np s ps of
             Inl e \<Rightarrow> Inl e
           | Inr ps' \<Rightarrow> Inr (p\<lparr>p_w := q, w_numpy := w_numpy p \<or> np\<rparr> # ps')))"

definition normalize_particles :: "particle list \<Rightarrow> py_error + particle list" where
  "normalize_particles cloud = divide_weights (sum_numpy cloud) (weight_sum cloud) cloud"

text \<open>What a division that does not raise stores in a particle.\<close>

definition scaled :: "bool \<Rightarrow> pyfloat \<Rightarrow> particle \<Rightarrow> particle" where
  "scaled np s p = p\<lparr>p_w := quotient (p_w p) s, w_numpy := w_numpy p \<or> np\<rparr>"

subsection \<open>The state of the filter\<close>

text \<open>
  The attributes of \<open>ParticleFilter\<close> the filter steps read and write.
  \<open>current_odom_xy_theta\<close> is \<open>None\<close> while the attribute is still the empty list of
  \<open>__init__\<close>. \<open>robot_pose\<close> holds the \<open>x\<close>, \<open>y\<close>, \<open>theta\<close> of the mean particle that
  \<open>as_pose\<close> converts. \<open>events\<close> records, in order, the calls that leave the node:
  a publish of the particle cloud on one of the five topics, and a call of
  \<open>fix_map_to_odom_transform\<close>.
\<close>

datatype topic = Rawcloud | Odomcloud | Lasercloud | Resamplecloud | Finalcloud

datatype event = Publish topic "particle list" | FixMapToOdom

record pf =
  initialized :: bool
  n_particles :: nat
  d_thresh :: real
  a_thresh :: real
  particle_cloud :: "particle list"
  current_odom_xy_theta :: "(real \<times> real \<times> real) option"
  odom_pose :: "real \<times> real \<times> real"
  occupancy_field :: occupancy_field
  robot_pose :: "pyfloat \<times> pyfloat \<times> pyfloat"
  events :: "event list"

text \<open>
  A method returns the state it leaves and the exception it raised, if any.
  \<open>and_then\<close> runs the next statement unless the previous one raised.
\<close>

type_synonym outcome = "pf \<times> py_error option"

definition and_then :: "outcome \<Rightarrow> (pf \<Rightarrow> outcome) \<Rightarrow> outcome" where
  "and_then r f = (case r of (s, None) \<Rightarrow> f s | (s, Some e) \<Rightarrow> (s, Some e))"

definition publish_particles :: "topic \<Rightarrow> pf \<Rightarrow> pf" where
  "publish_particles t st = st\<lparr>events := events st @ [Publish t (particle_cloud st)]\<rparr>"

definition fix_map_to_odom_transform :: "pf \<Rightarrow> pf" where
  "fix_map_to_odom_transform st = st\<lparr>events := events st @ [FixMapToOdom]\<rparr>"

subsection \<open>The pose estimate\<close>

text \<open>
  \<open>ParticleFilter.update_robot_pose\<close> (lines 253--272): normalise, then add up
  \<open>w * x\<close>, \<open>w * y\<close> and \<open>w * theta\<close> over the cloud.
\<close>

definition mean_step ::
  "pyfloat \<times> pyfloat \<times> pyfloat \<Rightarrow> particle \<Rightarrow> pyfloat \<times> pyfloat \<times> pyfloat" where
  "mean_step m p =
     (case m of (mean_x, mean_y, mean_theta) \<Rightarrow>
        (fadd mean_x (fmul (p_w p) (Num (p_x p))),
         fadd mean_y (fmul (p_w p) (Num (p_y p))),
         fadd mean_theta (fmul (p_w p) (Num (p_theta p)))))"

definition mean_pose :: "particle list \<Rightarrow> pyfloat \<times> pyfloat \<times> pyfloat" where
  "mean_pose cloud = foldl mean_step (Num 0, Num 0, Num 0) cloud"

definition update_robot_pose :: "pf \<Rightarrow> outcome" where
  "update_robot_pose st =
     (case normalize_particles (particle_cloud st) of
        Inl e \<Rightarrow> (st, Some e)
      | Inr cloud \<Rightarrow> (st\<lparr>particle_cloud := cloud, robot_pose := mean_pose cloud\<rparr>, None))"

subsection \<open>The motion step\<close>

text \<open>
  \<open>ParticleFilter.update_particles_with_odom\<close> (lines 274--307). The three random draws
  made for a particle are an input: \<open>n_radius\<close> is the draw of
  \<open>np.random.normal(0, RADIAL_SIGMA)\<close>, \<open>n_sample\<close> that of \<open>random_sample()\<close>, \<open>n_orient\<close>
  that of \<open>np.random.normal(0, ORIENTATION_SIGMA)\<close>. The new odometry is read from the
  \<open>odom_pose\<close> attribute.
\<close>

record odom_noise =
  n_radius :: real
  n_sample :: real
  n_orient :: real

definition move_particle :: "real \<Rightarrow> real \<Rightarrow> real \<Rightarrow> odom_noise \<Rightarrow> particle \<Rightarrow> particle" where
  "move_particle r1 delta_distance r2 nz p =
     (let delta_random_radius = n_radius nz;
          delta_random_mean_angle = n_sample nz * TAU / 2;
          delta_random_orient_angle = n_orient nz;
          delta_random_x = delta_random_radius * cos delta_random_mean_angle;
          delta_random_y = delta_random_radius * sin delta_random_mean_angle;
          p1 = p\<lparr>p_theta := p_theta p + r1\<rparr>;
          p2 = p1\<lparr>p_x := p_x p1 + (cos (p_theta p1) * delta_distance + delta_random_x)\<rparr>;
          p3 = p2\<lparr>p_y := p_y p2 + (sin (p_theta p2) * delta_distance + delta_random_y)\<rparr>
      in p3\<lparr>p_theta := p_theta p3 + (r2 + delta_random_orient_angle)\<rparr>)"

definition update_particles_with_odom :: "pf \<Rightarrow> (nat \<Rightarrow> odom_noise) \<Rightarrow> pf" where
  "update_particles_with_odom st noise =
     (let new_odom_xy_theta = odom_pose st in
      case current_odom_xy_theta st of
        None \<Rightarrow> st\<lparr>current_odom_xy_theta := Some new_odom_xy_theta\<rparr>
      | Some old_odom_xy_theta \<Rightarrow>
          (case (new_odom_xy_theta, old_odom_xy_theta) of
             ((nx, ny, nt), (ox, oy, ot)) \<Rightarrow>
               let delta0 = nx - ox; delta1 = ny - oy; delta2 = nt - ot;
                   r1 = atan2 delta1 delta0 - ot;
                   delta_distance = sqrt (delta0 ^ 2 + delta1 ^ 2);
                   r2 = delta2 - r1
               in st\<lparr>current_odom_xy_theta := Some new_odom_xy_theta,
                      particle_cloud :=
                        map (\<lambda>(i, p). move_particle r1 delta_distance r2 (noise i) p)
                          (enumerate 0 (particle_cloud st))\<rparr>))"

subsection \<open>Resampling\<close>

text \<open>
  \<open>np.random.choice(a, p=p)\<close> for one draw, as numpy computes it. It refuses (with
  \<open>ValueError\<close>) an empty \<open>a\<close>, a \<open>p\<close> of another length, a \<open>nan\<close> or a negative
  probability, and probabilities whose sum is further from 1 than the square root of
  the float epsilon, \<open>2^-26\<close>, as it is when one of them is infinite. Otherwise it takes the cumulative sums of \<open>p\<close>, divides
  them by the last one, and returns the element at the position where the uniform draw
  \<open>u\<close> would be inserted to the right of equal values.
\<close>

fun nums :: "pyfloat list \<Rightarrow> real list option" where
  "nums [] = Some []"
| "nums (Num r # qs) = (case nums qs of None \<Rightarrow> None | Some rs \<Rightarrow> Some (r # rs))"
| "nums (_ # qs) = None"

fun cumsum :: "real \<Rightarrow> real list \<Rightarrow> real list" where
  "cumsum acc [] = []"
| "cumsum acc (r # rs) = (acc + r) # cumsum (acc + r) rs"

definition searchsorted_right :: "real list \<Rightarrow> real \<Rightarrow> nat" where
  "searchsorted_right cdf u = length (takeWhile (\<lambda>c. c \<le> u) cdf)"

definition choice :: "'a list \<Rightarrow> pyfloat list \<Rightarrow> real \<Rightarrow> py_error + 'a" where
  "choice a p u =
     (if a = [] then Inl ValueError
      else if length p \<noteq> length a then Inl ValueError
      else (case nums p of
              None \<Rightarrow> Inl ValueError
            | Some ps \<Rightarrow>
                if list_ex (\<lambda>q. q < 0) ps then Inl ValueError
                else if \<bar>sum_list ps - 1\<bar> > 1 / 2 ^ 26 then Inl ValueError
                else
                  let cdf = map (\<lambda>c. c / last (cumsum 0 ps)) (cumsum 0 ps);
                      idx = searchsorted_right cdf u
                  in if idx < length a then Inr (a ! idx) else Inl IndexError))"

text \<open>
  \<open>ParticleFilter.resample_particles\<close> (lines 316--327). The copy that \<open>deepcopy\<close>
  makes has the fields of the particle drawn; on values it is the identity. The list
  attribute is assigned after the loop, so an exception in a draw leaves the normalised
  old cloud.
\<close>

fun draw_particles :: "particle list \<Rightarrow> pyfloat list \<Rightarrow> real list \<Rightarrow> py_error + particle list" where
  "draw_particles cloud p [] = Inr []"
| "draw_particles cloud p (u # us) =
     (case choice cloud p u of
        Inl e \<Rightarrow> Inl e
      | Inr random_particle \<Rightarrow>
          (case draw_particles cloud p us of
             Inl e \<Rightarrow> Inl e
           | Inr new_particle_cloud \<Rightarrow> Inr (random_particle # new_particle_cloud)))"

definition resample_particles :: "pf \<Rightarrow> (nat \<Rightarrow> real) \<Rightarrow> outcome" where
  "resample_particles st draws =
     (case normalize_particles (particle_cloud st) of
        Inl e \<Rightarrow> (st, Some e)
      | Inr cloud \<Rightarrow>
          (case draw_particles cloud (map p_w cloud) (map draws [0..<n_particles st]) of
             Inl e \<Rightarrow> (st\<lparr>particle_cloud := cloud\<rparr>, Some e)
           | Inr new_particle_cloud \<Rightarrow> (st\<lparr>particle_cloud := new_particle_cloud\<rparr>, None)))"

subsection \<open>Resampling on object identities\<close>

text \<open>
  The same method with the particle objects in a store: an address is an index of the
  store, the cloud is a list of addresses, and \<open>deepcopy\<close> allocates a new object at the
  end of the store. The two loops of \<open>normalize_particles\<close> read and write the objects
  through their addresses, so an object listed twice is divided twice.
\<close>

type_synonym store = "particle list"

definition deepcopy :: "store \<Rightarrow> nat \<Rightarrow> store \<times> nat" where
  "deepcopy h a = (h @ [h ! a], length h)"

definition weight_sum_refs :: "store \<Rightarrow> nat list \<Rightarrow> pyfloat" where
  "weight_sum_refs h refs = foldl fadd (Num 0) (map (\<lambda>a. p_w (h ! a)) refs)"

definition sum_numpy_refs :: "store \<Rightarrow> nat list \<Rightarrow> bool" where
  "sum_numpy_refs h refs = list_ex (\<lambda>a. w_numpy (h ! a)) refs"

fun divide_weights_refs :: "bool \<Rightarrow> pyfloat \<Rightarrow> nat list \<Rightarrow> store \<Rightarrow> py_error + store" where
  "divide_weights_refs np s [] h = Inr h"
| "divide_weights_refs np s (a # refs) h =
     (case fdiv (w_numpy (h ! a) \<or> np) (p_w (h ! a)) s of
        Inl e \<Rightarrow> Inl e
      | Inr q \<Rightarrow>
          divide_weights_refs np s refs
            (h[a := (h ! a)\<lparr>p_w := q, w_numpy := w_numpy (h ! a) \<or> np\<rparr>]))"

definition normalize_particles_refs :: "store \<Rightarrow> nat list \<Rightarrow> py_error + store" where
  "normalize_particles_refs h refs =
     divide_weights_refs (sum_numpy_refs h refs) (weight_sum_refs h refs) refs h"

fun draw_copies :: "nat list \<Rightarrow> pyfloat list \<Rightarrow> real list \<Rightarrow> store \<Rightarrow> py_error + store \<times> nat list" where
  "draw_copies refs p [] h = Inr (h, [])"
| "draw_copies refs p (u # us) h =
     (case choice refs p u of
        Inl e \<Rightarrow> Inl e
      | Inr a \<Rightarrow>
          (case deepcopy h a of
             (h1, random_particle) \<Rightarrow>
               (case draw_copies refs p us h1 of
                  Inl e \<Rightarrow> Inl e
                | Inr (h2, new_particle_cloud) \<Rightarrow> Inr (h2, random_particle # new_particle_cloud))))"

definition resample_particles_refs ::
  "nat \<Rightarrow> (nat \<Rightarrow> real) \<Rightarrow> store \<Rightarrow> nat list \<Rightarrow> py_error + store \<times> nat list" where
  "resample_particles_refs n draws h refs =
     (case normalize_particles_refs h refs of
        Inl e \<Rightarrow> Inl e
      | Inr h1 \<Rightarrow> draw_copies refs (map (\<lambda>a. p_w (h1 ! a)) refs) (map draws [0..<n]) h1)"

subsection \<open>The sensor step\<close>

text \<open>
  \<open>ParticleFilter.filter_laser\<close> (lines 565--571): the readings strictly between 0 and
  3.5, under their position in the scan. The dictionary is kept as the list of its
  items in the order they were inserted, which is the order \<open>keys()\<close> is taken to list
  them in.
\<close>

definition filter_laser :: "pyfloat list \<Rightarrow> (nat \<times> real) list" where
  "filter_laser ranges =
     List.map_filter
       (\<lambda>(i, q). case q of
                    Num r \<Rightarrow> if r > 0 \<and> r < 3.5 then Some (i, r) else None
                  | _ \<Rightarrow> None)
       (enumerate 0 ranges)"

text \<open>
  \<open>scipy.stats.norm.pdf(x, loc, scale)\<close>: the density of the normal distribution, a
  \<open>numpy.float64\<close>; a \<open>nan\<close> argument gives \<open>nan\<close>, an infinite one 0.
\<close>

fun norm_pdf :: "real \<Rightarrow> real \<Rightarrow> pyfloat \<Rightarrow> pyfloat" where
  "norm_pdf loc scale (Num v) =
     Num (exp (- (((v - loc) / scale) ^ 2) / 2) / (scale * sqrt (2 * pi)))"
| "norm_pdf loc scale NaN = NaN"
| "norm_pdf loc scale _ = Num 0"

text \<open>
  \<open>ParticleFilter.update_particles_with_laser\<close> (lines 329--371). \<open>beam_factor\<close> is the
  body of the inner loop up to \<open>1 + probability_density\<close>, for the beam stored under
  \<open>index\<close> with reading \<open>radius\<close>; \<open>density_loop\<close> multiplies the factors into
  \<open>density_product\<close>; \<open>selected_beams\<close> are the 25 items
  \<open>keys[int(i * valid_len / num_pt_check)]\<close>. The product of the integer 1 with the
  factors is a \<open>numpy.float64\<close> once there is a factor. An exception of the field query
  ends the method: the particles before the current one have their new weight, the
  others keep theirs.
\<close>

definition num_pt_check :: nat where
  "num_pt_check = 25"

definition beam_factor :: "occupancy_field \<Rightarrow> particle \<Rightarrow> nat \<times> real \<Rightarrow> py_error + pyfloat" where
  "beam_factor f p b =
     (case b of (index, radius) \<Rightarrow>
        let angle = py_fmod (real index + 0.25 * TAU) TAU;
            x = cos (angle + p_theta p) * radius + p_x p;
            y = sin (angle + p_theta p) * radius + p_y p
        in case get_closest_obstacle_distance f x y of
             Inl e \<Rightarrow> Inl e
           | Inr dist_to_nearest_neighbor \<Rightarrow>
               Inr (fadd (Num 1) (norm_pdf 0 0.05 dist_to_nearest_neighbor)))"

fun density_loop ::
  "occupancy_field \<Rightarrow> particle \<Rightarrow> (nat \<times> real) list \<Rightarrow> pyfloat \<Rightarrow> py_error + pyfloat" where
  "density_loop f p [] density_product = Inr density_product"
| "density_loop f p (b # bs) density_product =
     (case beam_factor f p b of
        Inl e \<Rightarrow> Inl e
      | Inr q \<Rightarrow> density_loop f p bs (fmul density_product q))"

definition selected_beams :: "(nat \<times> real) list \<Rightarrow> (nat \<times> real) list" where
  "selected_beams valid_ranges =
     map (\<lambda>i. valid_ranges ! (i * length valid_ranges div num_pt_check)) [0..<num_pt_check]"

fun weigh_particles ::
  "occupancy_field \<Rightarrow> (nat \<times> real) list \<Rightarrow> particle list \<Rightarrow> particle list \<times> py_error option" where
  "weigh_particles f beams [] = ([], None)"
| "weigh_particles f beams (p # ps) =
     (case density_loop f p beams (Num 1) of
        Inl e \<Rightarrow> (p # ps, Some e)
      | Inr density_product \<Rightarrow>
          (case weigh_particles f beams ps of
             (ps', r) \<Rightarrow>
               (p\<lparr>p_w := density_product, w_numpy := (beams \<noteq> [])\<rparr> # ps', r)))"

definition update_particles_with_laser :: "pf \<Rightarrow> pyfloat list \<Rightarrow> outcome" where
  "update_particles_with_laser st ranges =
     (let valid_ranges = filter_laser ranges;
          valid_len = length valid_ranges
      in if valid_len \<ge> num_pt_check then
           (case weigh_particles (occupancy_field st) (selected_beams valid_ranges)
                   (particle_cloud st) of
              (cloud, r) \<Rightarrow> (st\<lparr>particle_cloud := cloud\<rparr>, r))
         else (st, None))"

subsection \<open>Initialising the cloud\<close>

text \<open>
  \<open>ParticleFilter.initialize_particle_cloud\<close> (lines 441--462). The four draws of
  \<open>random_sample()\<close> made for a particle are an input. The particles are scattered
  around the origin of the map frame, with a fixed heading.
\<close>

definition init_particle :: "map_info \<Rightarrow> real \<times> real \<times> real \<times> real \<Rightarrow> particle" where
  "init_particle map_info s =
     (case s of (s1, s2, s3, s4) \<Rightarrow>
        let x = s1 * real (width map_info) * resolution map_info * 0.05;
            x = (if s2 > 0.5 then - x else x);
            y = s3 * real (height map_info) * resolution map_info * 0.1;
            y = (if s4 > 0.5 then - y else y);
            theta = 0.34 * TAU
        in Particle x y theta)"

definition normalize_cloud :: "pf \<Rightarrow> outcome" where
  "normalize_cloud st =
     (case normalize_particles (particle_cloud st) of
        Inl e \<Rightarrow> (st, Some e)
      | Inr cloud \<Rightarrow> (st\<lparr>particle_cloud := cloud\<rparr>, None))"

definition initialize_particle_cloud ::
  "pf \<Rightarrow> (nat \<Rightarrow> real \<times> real \<times> real \<times> real) \<Rightarrow> outcome" where
  "initialize_particle_cloud st samples =
     (let map_info = info (occupancy_field st);
          st1 = st\<lparr>particle_cloud :=
                     map (\<lambda>i. init_particle map_info (samples i)) [0..<n_particles st]\<rparr>
      in and_then (normalize_cloud st1) update_robot_pose)"

text \<open>
  A call of the method with positional arguments \<open>args\<close> besides \<open>self\<close>. The method is
  declared as \<open>def initialize_particle_cloud(self)\<close>, so Python raises \<open>TypeError\<close>
  before the body runs when \<open>args\<close> is not empty.
\<close>

definition call_initialize_particle_cloud ::
  "pf \<Rightarrow> (real \<times> real \<times> real) list \<Rightarrow> (nat \<Rightarrow> real \<times> real \<times> real \<times> real) \<Rightarrow> outcome" where
  "call_initialize_particle_cloud st args samples =
     (if args \<noteq> [] then (st, Some TypeError) else initialize_particle_cloud st samples)"

text \<open>
  \<open>ParticleFilter.update_initial_pose\<close> (lines 434--439), the callback of the
  \<open>initialpose\<close> topic. \<open>xy_theta\<close> is the pose of the message as
  \<open>convert_pose_to_xy_and_theta\<close> returns it.
\<close>

definition update_initial_pose ::
  "pf \<Rightarrow> real \<times> real \<times> real \<Rightarrow> (nat \<Rightarrow> real \<times> real \<times> real \<times> real) \<Rightarrow> outcome" where
  "update_initial_pose st xy_theta samples =
     and_then (call_initialize_particle_cloud st [xy_theta] samples)
       (\<lambda>st1. (fix_map_to_odom_transform st1, None))"

subsection \<open>The scan callback\<close>

text \<open>
  What a call of \<open>scan_received\<close> reads from outside the filter: the ranges of the
  message, whether the two transforms can be looked up, and the odometry pose the
  transform listener returns, as \<open>convert_pose_to_xy_and_theta\<close> converts it. The random
  draws of the steps are one more input.
\<close>

record scan =
  msg_ranges :: "pyfloat list"
  can_transform_laser :: bool
  can_transform_odom :: bool
  odom_lookup :: "real \<times> real \<times> real"

record randomness =
  init_samples :: "nat \<Rightarrow> real \<times> real \<times> real \<times> real"
  odom_noises :: "nat \<Rightarrow> odom_noise"
  resample_draws :: "nat \<Rightarrow> real"

text \<open>The condition of the \<open>elif\<close> (lines 523--525).\<close>

definition moved_enough :: "pf \<Rightarrow> real \<times> real \<times> real \<Rightarrow> real \<times> real \<times> real \<Rightarrow> bool" where
  "moved_enough st new_odom_xy_theta cur =
     (case (new_odom_xy_theta, cur) of
        ((nx, ny, nt), (cx, cy, ct)) \<Rightarrow>
          \<bar>nx - cx\<bar> > d_thresh st \<or> \<bar>ny - cy\<bar> > d_thresh st \<or> \<bar>nt - ct\<bar> > a_thresh st)"

text \<open>The body of the \<open>elif\<close> (lines 527--543): one cycle of the filter.\<close>

definition filter_cycle :: "pf \<Rightarrow> scan \<Rightarrow> randomness \<Rightarrow> outcome" where
  "filter_cycle st msg rnd =
     (let st1 = publish_particles Rawcloud st;
          st2 = update_particles_with_odom st1 (odom_noises rnd);
          st3 = publish_particles Odomcloud st2
      in and_then (update_particles_with_laser st3 (msg_ranges msg))
           (\<lambda>st4. and_then (resample_particles (publish_particles Lasercloud st4)
                               (resample_draws rnd))
              (\<lambda>st5. and_then (update_robot_pose st5)
                 (\<lambda>st6. (fix_map_to_odom_transform st6, None)))))"

text \<open>
  \<open>ParticleFilter.scan_received\<close> (lines 481--547). Reading the baseline odometry while
  it is still the empty list raises \<open>IndexError\<close>.
\<close>

definition scan_received :: "pf \<Rightarrow> scan \<Rightarrow> randomness \<Rightarrow> outcome" where
  "scan_received st msg rnd =
     (if \<not> initialized st then (st, None)
      else if \<not> can_transform_laser msg then (st, None)
      else if \<not> can_transform_odom msg then (st, None)
      else
        let st0 = st\<lparr>odom_pose := odom_lookup msg\<rparr>;
            new_odom_xy_theta = odom_lookup msg
        in and_then
             (if particle_cloud st0 = [] then
                and_then (call_initialize_particle_cloud st0 [] (init_samples rnd))
                  (\<lambda>st1. (fix_map_to_odom_transform
                             (st1\<lparr>current_odom_xy_theta := Some new_odom_xy_theta\<rparr>), None))
              else
                (case current_odom_xy_theta st0 of
                   None \<Rightarrow> (st0, Some IndexError)
                 | Some cur \<Rightarrow>
                     if moved_enough st0 new_odom_xy_theta cur then filter_cycle st0 msg rnd
                     else (st0, None)))
             (\<lambda>st7. (publish_particles Finalcloud st7, None)))"

subsection \<open>The spec's readings\<close>

text \<open>
  The quantities the specification names and the code does not compute, written from
  the specification's words, for comparison with the code.
  \<open>circular_mean_theta\<close>: the weighted mean of the unit vectors at each \<open>theta\<close>, then
  \<open>atan2\<close>. \<open>linear_displacement\<close>: the length of the displacement between two odometry
  samples. \<open>weighted_mean\<close>: the weighted arithmetic mean of the values \<open>vs\<close> under the
  weights \<open>ws\<close>.
\<close>

definition circular_mean_theta :: "(real \<times> real) list \<Rightarrow> real" where
  "circular_mean_theta wts =
     atan2 (sum_list (map (\<lambda>(wt, t). wt * sin t) wts)) (sum_list (map (\<lambda>(wt, t). wt * cos t) wts))"

definition linear_displacement :: "real \<times> real \<times> real \<Rightarrow> real \<times> real \<times> real \<Rightarrow> real" where
  "linear_displacement new cur =
     (case (new, cur) of ((nx, ny, nt), (cx, cy, ct)) \<Rightarrow> sqrt ((nx - cx) ^ 2 + (ny - cy) ^ 2))"

definition weighted_mean :: "real list \<Rightarrow> real list \<Rightarrow> real" where
  "weighted_mean ws vs = sum_list (map (\<lambda>(a, b). a * b) (zip ws vs)) / sum_list ws"

subsection \<open>Example inputs\<close>

text \<open>
  Clouds of two particles: weights 1 and 3; weights 0 and 0 held as Python floats;
  weights 0 and 0 held as \<open>numpy.float64\<close>; and the cloud of one particle whose weight
  is \<open>nan\<close>, as the sensor step stores it when a beam ends outside the map.
\<close>

definition two_weights :: "particle list" where
  "two_weights =
     [\<lparr>p_x = 0, p_y = 0, p_theta = 0, p_w = Num 1, w_numpy = False\<rparr>,
      \<lparr>p_x = 4, p_y = 0, p_theta = 0, p_w = Num 3, w_numpy = False\<rparr>]"




text \<open>
  The filter as \<open>__init__\<close> leaves it, on the two by two map; and the same filter with
  two particles of weight 1 at the origin, heading 2 and -2 radians.
\<close>

definition base_state :: pf where
  "base_state =
     \<lparr>initialized = True, n_particles = 30, d_thresh = 0.04, a_thresh = 0.04 * TAU,
      particle_cloud = [], current_odom_xy_theta = None, odom_pose = (0, 0, 0),
      occupancy_field = corner_map, robot_pose = (Num 0, Num 0, Num 0), events = []\<rparr>"

definition heading_state :: pf where
  "heading_state = base_state\<lparr>particle_cloud := [Particle 0 0 2, Particle 0 0 (- 2)]\<rparr>"

text \<open>
  The filter with one particle at the origin of heading 0, the odometry baseline
  \<open>(0, 0, 0)\<close> and the new odometry \<open>(1, 0, 0)\<close>.
\<close>

definition step_state :: pf where
  "step_state =
     base_state\<lparr>particle_cloud := [Particle 0 0 0],
                 current_odom_xy_theta := Some (0, 0, 0),
                 odom_pose := (1, 0, 0)\<rparr>"

text \<open>
  A map of one occupied cell whose origin is at \<open>(100, 100)\<close>, and the filter on that
  map with one particle at the origin of the map frame: every beam of at most 3.5
  metres from the particle ends outside the map.
\<close>

definition far_map :: occupancy_field where
  "far_map =
     \<lparr>info = \<lparr>width = 1, height = 1, resolution = 1, origin_x = 100, origin_y = 100\<rparr>,
      closest_occupied = [0 \<mapsto> 0]\<rparr>"

definition far_state :: pf where
  "far_state = base_state\<lparr>occupancy_field := far_map, particle_cloud := [Particle 0 0 0]\<rparr>"

text \<open>
  The filter with one particle and the odometry baseline \<open>(0, 0, 0)\<close>; a scan taken
  after the robot moved by 0.03 along both axes; random draws that are all zero.
\<close>

definition diag_state :: pf where
  "diag_state =
     base_state\<lparr>particle_cloud := [Particle 0 0 0], current_odom_xy_theta := Some (0, 0, 0)\<rparr>"

definition diag_scan :: scan where
  "diag_scan =
     \<lparr>msg_ranges = [], can_transform_laser = True, can_transform_odom = True,
      odom_lookup = (0.03, 0.03, 0)\<rparr>"

definition quiet :: randomness where
  "quiet =
     \<lparr>init_samples = (\<lambda>i. (0, 0, 0, 0)),
      odom_noises = (\<lambda>i. \<lparr>n_radius = 0, n_sample = 0, n_orient = 0\<rparr>),
      resample_draws = (\<lambda>i. 0)\<rparr>"

text \<open>
  A ten by ten map of resolution 1, centred on the origin, whose cells are all occupied,
  so that every stored distance is 0; the filter on that map with one particle at the
  origin and the baseline \<open>(0, 0, 0)\<close>; a scan of 25 readings of one metre taken after
  the robot moved by 0.05 along \<open>x\<close>; and the same filter state on the far map.
\<close>

definition full_map :: occupancy_field where
  "full_map =
     \<lparr>info = \<lparr>width = 10, height = 10, resolution = 1, origin_x = - 5, origin_y = - 5\<rparr>,
      closest_occupied = (\<lambda>ind. if 0 \<le> ind \<and> ind < 100 then Some 0 else None)\<rparr>"

definition tour_state :: pf where
  "tour_state =
     base_state\<lparr>occupancy_field := full_map, particle_cloud := [Particle 0 0 0],
                 current_odom_xy_theta := Some (0, 0, 0)\<rparr>"

definition tour_scan :: scan where
  "tour_scan =
     \<lparr>msg_ranges = replicate 25 (Num 1), can_transform_laser = True, can_transform_odom = True,
      odom_lookup = (0.05, 0, 0)\<rparr>"

definition far_tour_state :: pf where
  "far_tour_state = far_state\<lparr>current_odom_xy_theta := Some (0, 0, 0)\<rparr>"

text \<open>
  A store that holds the two particles of weights 1 and 3 at the addresses 0 and 1, and
  uniform draws that are 0.5 for the second draw and 0 for the others.
\<close>

definition two_store :: store where
  "two_store = two_weights"

definition half_draws :: "nat \<Rightarrow> real" where
  "half_draws i = (if i = 1 then 0.5 else 0)"

section \<open>Properties\<close>

subsection \<open>The occupancy field query at the edge of the map\<close>

text \<open>
  When the query returns a stored distance: the x index may be \<open>width\<close> itself, one past
  the last column, as long as the row is not the last one.
\<close>

lemma get_closest_obstacle_distance_number:
  assumes "resolution (info f) \<noteq> 0"
    and "get_closest_obstacle_distance f x y = Inr (Num d)"
  shows "0 \<le> py_int ((x - origin_x (info f)) / resolution (info f))
       \<and> py_int ((x - origin_x (info f)) / resolution (info f)) \<le> int (width (info f))
       \<and> 0 \<le> py_int ((y - origin_y (info f)) / resolution (info f))
       \<and> py_int ((x - origin_x (info f)) / resolution (info f))
           + py_int ((y - origin_y (info f)) / resolution (info f)) * int (width (info f))
           < int (width (info f)) * int (height (info f))"
  using assms
  by (auto simp: get_closest_obstacle_distance_def Let_def split: if_splits option.splits)

text \<open>
  C1 (the code departs from the claim). The claim: the query returns the stored distance
  exactly when the truncated indices lie in \<open>[0, width) \<times> [0, height)\<close>, and \<open>nan\<close>
  otherwise. On the two by two map the point \<open>(2, 0)\<close> has x index 2, which is
  \<open>width\<close>; the bounds check compares with \<open>>\<close>, so the index passes, and the query
  returns the distance stored for index 2, that of cell \<open>(0, 1)\<close>, not \<open>nan\<close>.
\<close>

theorem get_closest_obstacle_distance_one_past_end:
  "py_int ((2 - origin_x (info corner_map)) / resolution (info corner_map))
     = int (width (info corner_map))
   \<and> get_closest_obstacle_distance corner_map 2 0 = Inr (Num 1)"
  by (simp add: get_closest_obstacle_distance_def corner_map_def py_int_def)

subsection \<open>Normalisation\<close>

text \<open>The sum the first loop computes, when every weight is a number.\<close>

lemma foldl_fadd_nums:
  "nums qs = Some rs \<Longrightarrow> foldl fadd (Num a) qs = Num (a + sum_list rs)"
proof (induction qs arbitrary: a rs)
  case Nil
  then show ?case by simp
next
  case (Cons q qs)
  then show ?case
    by (cases q) (auto split: option.splits simp: add.assoc)
qed

lemma weight_sum_nums:
  "nums (map p_w cloud) = Some ws \<Longrightarrow> weight_sum cloud = Num (sum_list ws)"
  by (simp add: weight_sum_def foldl_fadd_nums)

text \<open>The second loop, for a sum that is a number other than zero.\<close>

lemma divide_weights_nonzero:
  "s \<noteq> 0 \<Longrightarrow> divide_weights np (Num s) cloud = Inr (map (scaled np (Num s)) cloud)"
  by (induction cloud) (simp_all add: fdiv_def scaled_def)

lemma nums_map_scaled:
  "nums (map p_w cloud) = Some ws \<Longrightarrow> s \<noteq> 0 \<Longrightarrow>
   nums (map p_w (map (scaled np (Num s)) cloud)) = Some (map (\<lambda>v. v / s) ws)"
proof (induction cloud arbitrary: ws)
  case Nil
  then show ?case by simp
next
  case (Cons p ps)
  then show ?case
    by (cases "p_w p") (auto simp: scaled_def split: option.splits)
qed

lemma scaled_pose:
  "p_x (scaled np s p) = p_x p" "p_y (scaled np s p) = p_y p" "p_theta (scaled np s p) = p_theta p"
  by (simp_all add: scaled_def)

lemma sum_list_div: "sum_list (map (\<lambda>v. v / s) ws) = sum_list ws / (s::real)"
  by (induction ws) (simp_all add: add_divide_distrib)

lemma list_all_div:
  "list_all (\<lambda>v. 0 \<le> v) ws \<Longrightarrow> 0 < (s::real) \<Longrightarrow> list_all (\<lambda>v. 0 \<le> v) (map (\<lambda>v. v / s) ws)"
  by (induction ws) simp_all

lemma normalize_particles_nums:
  assumes "nums (map p_w cloud) = Some ws" and "sum_list ws \<noteq> 0"
  shows "normalize_particles cloud
     = Inr (map (scaled (sum_numpy cloud) (Num (sum_list ws))) cloud)"
  unfolding normalize_particles_def weight_sum_nums [OF assms(1)]
  by (rule divide_weights_nonzero [OF assms(2)])

text \<open>
  The only exception of \<open>normalize_particles\<close> is the division by a zero sum, and it is
  raised only when no weight is a \<open>numpy.float64\<close>.
\<close>

lemma divide_weights_error:
  "divide_weights np s cloud = Inl e \<Longrightarrow> e = ZeroDivisionError \<and> s = Num 0 \<and> \<not> np"
proof (induction cloud)
  case Nil
  then show ?case by simp
next
  case (Cons p ps)
  then show ?case
    by (auto simp: fdiv_def split: if_splits sum.splits)
qed

lemma normalize_particles_error:
  "normalize_particles cloud = Inl e \<Longrightarrow>
   e = ZeroDivisionError \<and> weight_sum cloud = Num 0 \<and> \<not> sum_numpy cloud"
  unfolding normalize_particles_def by (rule divide_weights_error)



lemma divide_weights_nan:
  "divide_weights np NaN cloud = Inr (map (scaled np NaN) cloud)"
  by (induction cloud) (simp_all add: fdiv_def scaled_def)

lemma quotient_nan: "quotient q NaN = NaN"
  by (cases q) simp_all

text \<open>A total that is a number has only numbers among its weights.\<close>

lemma foldl_fadd_not_number:
  "\<forall>r. a \<noteq> Num r \<Longrightarrow> \<forall>r. foldl fadd a qs \<noteq> Num r"
proof (induction qs arbitrary: a)
  case Nil
  then show ?case by simp
next
  case (Cons q qs)
  have "\<forall>r. fadd a q \<noteq> Num r"
    using Cons.prems by (cases a; cases q) simp_all
  then show ?case using Cons.IH by simp
qed

lemma foldl_fadd_number:
  "foldl fadd (Num a) qs = Num s \<Longrightarrow> \<exists>rs. nums qs = Some rs"
proof (induction qs arbitrary: a)
  case Nil
  then show ?case by simp
next
  case (Cons q qs)
  show ?case
  proof (cases q)
    case (Num r)
    then have "foldl fadd (Num (a + r)) qs = Num s" using Cons.prems by simp
    then obtain rs where "nums qs = Some rs" using Cons.IH by blast
    then show ?thesis using Num by simp
  next
    case PInf
    then show ?thesis using Cons.prems foldl_fadd_not_number [of PInf qs] by simp
  next
    case NInf
    then show ?thesis using Cons.prems foldl_fadd_not_number [of NInf qs] by simp
  next
    case NaN
    then show ?thesis using Cons.prems foldl_fadd_not_number [of NaN qs] by simp
  qed
qed

lemma weight_sum_number:
  assumes "weight_sum cloud = Num s"
  shows "\<exists>ws. nums (map p_w cloud) = Some ws \<and> sum_list ws = s"
proof -
  from assms obtain ws where ws: "nums (map p_w cloud) = Some ws"
    using foldl_fadd_number [of 0 "map p_w cloud" s] by (auto simp: weight_sum_def)
  then show ?thesis using assms weight_sum_nums [OF ws] by simp
qed

lemma nonneg_weight_nums:
  "nums (map p_w cloud) = Some ws \<Longrightarrow> list_all nonneg_weight cloud = list_all (\<lambda>v. 0 \<le> v) ws"
proof (induction cloud arbitrary: ws)
  case Nil
  then show ?case by simp
next
  case (Cons p ps)
  then show ?case
    by (cases "p_w p") (auto simp: nonneg_weight_def split: option.splits)
qed

text \<open>
  C7. For a particle set whose total weight, as the first loop adds it up, is a strictly
  positive number, \<open>normalize_particles\<close> returns, and the weights it leaves sum to 1;
  when the weights were non-negative, as the data model has them, they still are. A
  positive total already makes the set non-empty. The sum is exact here: rounding is
  not modelled.
\<close>

theorem normalize_particles_sums_to_one:
  assumes "weight_sum cloud = Num s" and "0 < s"
  shows "\<exists>cloud'. normalize_particles cloud = Inr cloud'
           \<and> length cloud' = length cloud
           \<and> weight_sum cloud' = Num 1
           \<and> (list_all nonneg_weight cloud \<longrightarrow> list_all nonneg_weight cloud')"
proof -
  from weight_sum_number [OF assms(1)] obtain ws
    where ws: "nums (map p_w cloud) = Some ws" and sum: "sum_list ws = s"
    by blast
  let ?c = "map (scaled (sum_numpy cloud) (Num s)) cloud"
  have s: "s \<noteq> 0" using assms(2) by simp
  have n: "normalize_particles cloud = Inr ?c"
    using normalize_particles_nums [OF ws] s unfolding sum by simp
  have w: "nums (map p_w ?c) = Some (map (\<lambda>v. v / s) ws)"
    by (rule nums_map_scaled [OF ws s])
  have "weight_sum ?c = Num (sum_list (map (\<lambda>v. v / s) ws))"
    by (rule weight_sum_nums [OF w])
  then have one: "weight_sum ?c = Num 1"
    using s sum by (simp add: sum_list_div)
  have "list_all nonneg_weight ?c" if "list_all nonneg_weight cloud"
  proof -
    have "list_all (\<lambda>v. 0 \<le> v) ws" using that nonneg_weight_nums [OF ws] by simp
    then have "list_all (\<lambda>v. 0 \<le> v) (map (\<lambda>v. v / s) ws)"
      using assms(2) by (rule list_all_div)
    then show ?thesis using nonneg_weight_nums [OF w] by simp
  qed
  then show ?thesis using n one by simp
qed

theorem normalize_particles_sums_to_one_witness:
  "weight_sum two_weights = Num 4
   \<and> (0::real) < 4
   \<and> list_all nonneg_weight two_weights
   \<and> normalize_particles two_weights =
       Inr [\<lparr>p_x = 0, p_y = 0, p_theta = 0, p_w = Num (1 / 4), w_numpy = False\<rparr>,
            \<lparr>p_x = 4, p_y = 0, p_theta = 0, p_w = Num (3 / 4), w_numpy = False\<rparr>]
   \<and> (\<exists>cloud'. normalize_particles two_weights = Inr cloud'
           \<and> length cloud' = length two_weights
           \<and> weight_sum cloud' = Num 1
           \<and> list_all nonneg_weight cloud')"
proof -
  have a: "weight_sum two_weights = Num 4" by (simp add: weight_sum_def two_weights_def)
  have b: "(0::real) < 4" by simp
  have c: "list_all nonneg_weight two_weights" by (simp add: two_weights_def nonneg_weight_def)
  have d: "normalize_particles two_weights =
       Inr [\<lparr>p_x = 0, p_y = 0, p_theta = 0, p_w = Num (1 / 4), w_numpy = False\<rparr>,
            \<lparr>p_x = 4, p_y = 0, p_theta = 0, p_w = Num (3 / 4), w_numpy = False\<rparr>]"
    by (simp add: normalize_particles_def weight_sum_def sum_numpy_def two_weights_def fdiv_def)
  show ?thesis
    using a b c d normalize_particles_sums_to_one [OF a b] by blast
qed





subsection \<open>The pose estimate is a linear mean\<close>

lemma foldl_mean_step_nums:
  "nums (map p_w cloud) = Some ws \<Longrightarrow>
   foldl mean_step (Num a, Num b, Num c) cloud =
     (Num (a + sum_list (map (\<lambda>(v, q). v * q) (zip ws (map p_x cloud)))),
      Num (b + sum_list (map (\<lambda>(v, q). v * q) (zip ws (map p_y cloud)))),
      Num (c + sum_list (map (\<lambda>(v, q). v * q) (zip ws (map p_theta cloud)))))"
proof (induction cloud arbitrary: a b c ws)
  case Nil
  then show ?case by simp
next
  case (Cons p ps)
  then show ?case
    by (cases "p_w p") (auto split: option.splits simp: mean_step_def add.assoc)
qed

lemma mean_pose_nums:
  "nums (map p_w cloud) = Some ws \<Longrightarrow>
   mean_pose cloud =
     (Num (sum_list (map (\<lambda>(v, q). v * q) (zip ws (map p_x cloud)))),
      Num (sum_list (map (\<lambda>(v, q). v * q) (zip ws (map p_y cloud)))),
      Num (sum_list (map (\<lambda>(v, q). v * q) (zip ws (map p_theta cloud)))))"
  using foldl_mean_step_nums [of cloud ws 0 0 0] by (simp add: mean_pose_def)

lemma sum_list_zip_div:
  "sum_list (map (\<lambda>(v, q). v * q) (zip (map (\<lambda>v. v / s) ws) vs))
     = sum_list (map (\<lambda>(v, q). v * q) (zip ws vs)) / (s::real)"
proof (induction ws arbitrary: vs)
  case Nil
  then show ?case by simp
next
  case (Cons a ws)
  then show ?case by (cases vs) (simp_all add: add_divide_distrib)
qed

text \<open>The estimate, for weights that are numbers whose sum is not zero.\<close>

lemma update_robot_pose_nums:
  assumes "nums (map p_w (particle_cloud st)) = Some ws" and "sum_list ws \<noteq> 0"
  shows "snd (update_robot_pose st) = None
       \<and> robot_pose (fst (update_robot_pose st)) =
           (Num (weighted_mean ws (map p_x (particle_cloud st))),
            Num (weighted_mean ws (map p_y (particle_cloud st))),
            Num (weighted_mean ws (map p_theta (particle_cloud st))))
       \<and> length (particle_cloud (fst (update_robot_pose st))) = length (particle_cloud st)"
proof -
  let ?s = "sum_list ws"
  let ?c = "map (scaled (sum_numpy (particle_cloud st)) (Num ?s)) (particle_cloud st)"
  have n: "normalize_particles (particle_cloud st) = Inr ?c"
    by (rule normalize_particles_nums [OF assms])
  have w: "nums (map p_w ?c) = Some (map (\<lambda>v. v / ?s) ws)"
    by (rule nums_map_scaled [OF assms])
  have px: "map p_x ?c = map p_x (particle_cloud st)"
    and py: "map p_y ?c = map p_y (particle_cloud st)"
    and pt: "map p_theta ?c = map p_theta (particle_cloud st)"
    by (simp_all add: scaled_pose)
  have "mean_pose ?c =
     (Num (weighted_mean ws (map p_x (particle_cloud st))),
      Num (weighted_mean ws (map p_y (particle_cloud st))),
      Num (weighted_mean ws (map p_theta (particle_cloud st))))"
    unfolding mean_pose_nums [OF w] px py pt
    by (simp add: sum_list_zip_div weighted_mean_def)
  then show ?thesis
    by (simp add: update_robot_pose_def n)
qed

text \<open>
  C3 (as amended). \<open>update_robot_pose\<close> normalises the weights and sets the pose
  estimate to the weighted arithmetic mean of \<open>x\<close>, of \<open>y\<close> and of \<open>theta\<close>: the heading
  is averaged linearly, like the two coordinates. This holds whenever the weights are
  numbers whose sum is not zero.
\<close>

theorem update_robot_pose_linear_mean:
  assumes "nums (map p_w (particle_cloud st)) = Some ws" and "sum_list ws \<noteq> 0"
  shows "snd (update_robot_pose st) = None
       \<and> robot_pose (fst (update_robot_pose st)) =
           (Num (weighted_mean ws (map p_x (particle_cloud st))),
            Num (weighted_mean ws (map p_y (particle_cloud st))),
            Num (weighted_mean ws (map p_theta (particle_cloud st))))"
  using update_robot_pose_nums [OF assms] by simp

theorem update_robot_pose_linear_mean_witness:
  "nums (map p_w (particle_cloud heading_state)) = Some [1, 1]
   \<and> sum_list [1, 1 :: real] \<noteq> 0
   \<and> snd (update_robot_pose heading_state) = None
   \<and> robot_pose (fst (update_robot_pose heading_state)) = (Num 0, Num 0, Num 0)"
proof -
  have a: "nums (map p_w (particle_cloud heading_state)) = Some [1, 1]"
    by (simp add: heading_state_def base_state_def Particle_def)
  have b: "sum_list [1, 1 :: real] \<noteq> 0" by simp
  show ?thesis
    using a b update_robot_pose_linear_mean [OF a b]
    by (simp add: heading_state_def base_state_def Particle_def weighted_mean_def)
qed

text \<open>
  C3 (the claim as stated fails). Two particles of equal weight with headings 2 and -2:
  the estimate's heading is their linear mean 0, while the circular mean of the two
  headings under the normalised weights is \<open>pi\<close>.
\<close>

theorem update_robot_pose_not_circular:
  "map p_w (particle_cloud (fst (update_robot_pose heading_state))) = [Num (1 / 2), Num (1 / 2)]
   \<and> map p_theta (particle_cloud (fst (update_robot_pose heading_state))) = [2, - 2]
   \<and> snd (snd (robot_pose (fst (update_robot_pose heading_state)))) = Num 0
   \<and> circular_mean_theta [(1 / 2, 2), (1 / 2, - 2)] = pi
   \<and> Num 0 \<noteq> Num pi"
proof -
  have n: "normalize_particles [Particle 0 0 2, Particle 0 0 (- 2)]
      = Inr [(Particle 0 0 2)\<lparr>p_w := Num (1 / 2)\<rparr>, (Particle 0 0 (- 2))\<lparr>p_w := Num (1 / 2)\<rparr>]"
    by (simp add: normalize_particles_def weight_sum_def sum_numpy_def fdiv_def Particle_def)
  have c: "circular_mean_theta [(1 / 2, 2), (1 / 2, - 2)] = pi"
  proof -
    have neg: "cos (2::real) < 0" by (rule cos_two_less_zero)
    have "atan2 0 (cos (2::real)) = pi"
      unfolding atan2_def using neg by (simp add: not_less less_imp_le)
    then show ?thesis
      by (simp add: circular_mean_theta_def)
  qed
  show ?thesis
    using c
    by (simp add: update_robot_pose_def heading_state_def base_state_def
        n [unfolded Particle_def] mean_pose_def mean_step_def Particle_def)
qed

subsection \<open>The motion step without noise\<close>

lemma map_enumerate_snd: "map (\<lambda>(i, p). g p) (enumerate n xs) = map g xs"
  by (induction xs arbitrary: n) simp_all

lemma move_particle_noise_free:
  assumes "n_radius nz = 0" and "n_orient nz = 0"
  shows "move_particle r1 d r2 nz p =
     \<lparr>p_x = p_x p + cos (p_theta p + r1) * d,
      p_y = p_y p + sin (p_theta p + r1) * d,
      p_theta = p_theta p + r1 + r2,
      p_w = p_w p,
      w_numpy = w_numpy p\<rparr>"
  using assms by (simp add: move_particle_def Let_def)

text \<open>
  C8. With a recorded baseline and the radial and orientation noise at zero, the motion
  step applies the rotate-translate-rotate decomposition of the odometry change to
  every particle: \<open>theta += r1\<close>, then \<open>x += cos(theta) * translation\<close> and
  \<open>y += sin(theta) * translation\<close>, then \<open>theta += r2\<close>. The weights are not touched.
\<close>

theorem update_particles_with_odom_noise_free:
  assumes "current_odom_xy_theta st = Some (ox, oy, ot)"
    and "odom_pose st = (nx, ny, nt)"
    and "\<And>i. n_radius (noise i) = 0"
    and "\<And>i. n_orient (noise i) = 0"
    and "r1 = atan2 (ny - oy) (nx - ox) - ot"
    and "translation = sqrt ((nx - ox) ^ 2 + (ny - oy) ^ 2)"
    and "r2 = (nt - ot) - r1"
  shows "particle_cloud (update_particles_with_odom st noise) =
     map (\<lambda>p. \<lparr>p_x = p_x p + cos (p_theta p + r1) * translation,
               p_y = p_y p + sin (p_theta p + r1) * translation,
               p_theta = p_theta p + r1 + r2,
               p_w = p_w p,
      w_numpy = w_numpy p\<rparr>)
       (particle_cloud st)"
proof -
  have "map (\<lambda>(i, p). move_particle r1 translation r2 (noise i) p) (enumerate 0 (particle_cloud st))
      = map (\<lambda>(i, p). \<lparr>p_x = p_x p + cos (p_theta p + r1) * translation,
               p_y = p_y p + sin (p_theta p + r1) * translation,
               p_theta = p_theta p + r1 + r2,
               p_w = p_w p,
      w_numpy = w_numpy p\<rparr>) (enumerate 0 (particle_cloud st))"
    by (simp add: move_particle_noise_free assms(3,4))
  then show ?thesis
    using assms(1,2,5,6,7)
    by (simp add: update_particles_with_odom_def Let_def map_enumerate_snd)
qed

text \<open>
  The instance of the claim: the odometry change \<open>(1, 0, 0)\<close> from heading 0 has
  \<open>r1 = 0\<close>, translation 1 and \<open>r2 = 0\<close>, and moves the particle \<open>(0, 0, 0)\<close> to
  \<open>(1, 0, 0)\<close>.
\<close>

theorem update_particles_with_odom_unit_step:
  "current_odom_xy_theta step_state = Some (0, 0, 0)
   \<and> odom_pose step_state = (1, 0, 0)
   \<and> atan2 (0 - 0) (1 - 0) - 0 = 0
   \<and> sqrt ((1 - 0) ^ 2 + (0 - 0) ^ 2) = 1
   \<and> particle_cloud step_state = [\<lparr>p_x = 0, p_y = 0, p_theta = 0, p_w = Num 1, w_numpy = False\<rparr>]
   \<and> particle_cloud
        (update_particles_with_odom step_state (\<lambda>i. \<lparr>n_radius = 0, n_sample = 0, n_orient = 0\<rparr>))
       = [\<lparr>p_x = 1, p_y = 0, p_theta = 0, p_w = Num 1, w_numpy = False\<rparr>]"
proof -
  have a: "current_odom_xy_theta step_state = Some (0, 0, 0)"
    and b: "odom_pose step_state = (1, 0, 0)"
    and c: "particle_cloud step_state = [\<lparr>p_x = 0, p_y = 0, p_theta = 0, p_w = Num 1, w_numpy = False\<rparr>]"
    by (simp_all add: step_state_def base_state_def Particle_def)
  have r1: "(0::real) = atan2 (0 - 0) (1 - 0) - 0" by (simp add: atan2_def)
  have tr: "(1::real) = sqrt ((1 - 0) ^ 2 + (0 - 0) ^ 2)" by simp
  have r2: "(0::real) = (0 - 0) - 0" by simp
  have "particle_cloud
        (update_particles_with_odom step_state (\<lambda>i. \<lparr>n_radius = 0, n_sample = 0, n_orient = 0\<rparr>))
       = [\<lparr>p_x = 1, p_y = 0, p_theta = 0, p_w = Num 1, w_numpy = False\<rparr>]"
    using update_particles_with_odom_noise_free
      [of step_state 0 0 0 1 0 0 "\<lambda>i. \<lparr>n_radius = 0, n_sample = 0, n_orient = 0\<rparr>" 0 1 0,
       OF a b _ _ r1 tr r2]
    by (simp add: c)
  then show ?thesis using a b c r1 tr by simp
qed

subsection \<open>The pose hint\<close>

text \<open>
  C6 (the code departs from the claim). The claim: the handler of a pose hint succeeds
  and scatters the new cloud around the hint. The handler passes the hint to
  \<open>initialize_particle_cloud\<close>, which takes no argument, so every call raises
  \<open>TypeError\<close> and leaves the filter as it was.
\<close>

theorem update_initial_pose_raises:
  "update_initial_pose st xy_theta samples = (st, Some TypeError)"
  by (simp add: update_initial_pose_def call_initialize_particle_cloud_def and_then_def)

subsection \<open>The sensor step writes weights only\<close>

lemma weigh_particles_pose:
  "map (\<lambda>p. (p_x p, p_y p, p_theta p)) (fst (weigh_particles f beams cloud))
     = map (\<lambda>p. (p_x p, p_y p, p_theta p)) cloud"
  by (induction cloud) (auto split: sum.splits prod.splits)

text \<open>
  C10. For every state of the filter and every scan, the particles after
  \<open>update_particles_with_laser\<close> have the \<open>x\<close>, \<open>y\<close> and \<open>theta\<close> they had before,
  in the same order, whether the step weighs them, skips the scan or stops at an
  exception.
\<close>

theorem update_particles_with_laser_keeps_poses:
  "map (\<lambda>p. (p_x p, p_y p, p_theta p))
       (particle_cloud (fst (update_particles_with_laser st ranges)))
     = map (\<lambda>p. (p_x p, p_y p, p_theta p)) (particle_cloud st)"
proof (cases "num_pt_check \<le> length (filter_laser ranges)")
  case True
  then show ?thesis
    using weigh_particles_pose
      [of "occupancy_field st" "selected_beams (filter_laser ranges)" "particle_cloud st"]
    by (auto simp: update_particles_with_laser_def Let_def split: prod.splits)
next
  case False
  then show ?thesis
    by (simp add: update_particles_with_laser_def Let_def)
qed

subsection \<open>The sensor weight\<close>

lemma far_map_outside:
  assumes "x < 99"
  shows "get_closest_obstacle_distance far_map x y = Inr NaN"
proof -
  have "x - 100 \<le> of_int (0::int) - 1" using assms by simp
  then have "\<lceil>x - 100\<rceil> < 0" by (simp only: ceiling_less_iff)
  moreover have "\<not> 0 \<le> x - 100" using assms by simp
  ultimately have "py_int (x - 100) < 0" by (simp add: py_int_def)
  then show ?thesis
    by (simp add: get_closest_obstacle_distance_def far_map_def Let_def)
qed

lemma beam_factor_far_map:
  assumes "\<bar>r\<bar> + \<bar>p_x p\<bar> < 99"
  shows "beam_factor far_map p (i, r) = Inr NaN"
proof -
  let ?a = "py_fmod (real i + 0.25 * TAU) TAU + p_theta p"
  have "\<bar>cos ?a * r\<bar> \<le> \<bar>r\<bar>"
    using abs_cos_le_one [of ?a] by (simp add: abs_mult mult_left_le_one_le)
  then have "cos ?a * r + p_x p < 99" using assms by linarith
  then show ?thesis
    by (simp add: beam_factor_def Let_def far_map_outside)
qed

lemma density_loop_nan:
  assumes "beams \<noteq> []" and "list_all (\<lambda>b. beam_factor f p b = Inr NaN) beams"
  shows "density_loop f p beams acc = Inr NaN"
  using assms
proof (induction beams arbitrary: acc)
  case Nil
  then show ?case by simp
next
  case (Cons b bs)
  have n: "fmul acc NaN = NaN" by (cases acc) simp_all
  show ?case
  proof (cases bs)
    case Nil
    then show ?thesis using Cons.prems by (simp add: n)
  next
    case (Cons c cs)
    then show ?thesis using Cons.prems Cons.IH [of NaN] by (simp add: n)
  qed
qed

lemma filter_laser_valid:
  "(i, r) \<in> set (filter_laser ranges) \<Longrightarrow> 0 < r \<and> r < 3.5"
  by (auto simp: filter_laser_def List.map_filter_def split: pyfloat.splits if_splits)

lemma selected_beams_subset:
  assumes "num_pt_check \<le> length valid"
  shows "set (selected_beams valid) \<subseteq> set valid"
proof -
  have "i * length valid div num_pt_check < length valid" if "i < num_pt_check" for i
  proof -
    have "0 < length valid" using assms unfolding num_pt_check_def by linarith
    then have "i * length valid < num_pt_check * length valid"
      using that by simp
    then show ?thesis
      by (simp add: less_mult_imp_div_less mult.commute)
  qed
  then show ?thesis
    by (auto simp: selected_beams_def)
qed

lemma selected_beams_not_empty: "selected_beams valid \<noteq> []"
  by (simp add: selected_beams_def num_pt_check_def)

lemma length_filter_laser_replicate:
  "length (List.map_filter
       (\<lambda>(i, q). case q of
                    Num r \<Rightarrow> if r > 0 \<and> r < 3.5 then Some (i, r) else None
                  | _ \<Rightarrow> None)
       (enumerate k (replicate n (Num 1)))) = n"
  by (induction n arbitrary: k) (simp_all add: List.map_filter_def)

lemma weight_far_map:
  assumes "num_pt_check \<le> length (filter_laser ranges)" and "\<bar>p_x p\<bar> < 95"
  shows "density_loop far_map p (selected_beams (filter_laser ranges)) (Num 1) = Inr NaN"
proof (rule density_loop_nan [OF selected_beams_not_empty])
  have "beam_factor far_map p b = Inr NaN" if "b \<in> set (selected_beams (filter_laser ranges))" for b
  proof -
    obtain i r where b: "b = (i, r)" by (cases b)
    have "(i, r) \<in> set (filter_laser ranges)"
      using that selected_beams_subset [OF assms(1)] b by auto
    then have "0 < r \<and> r < 3.5" by (rule filter_laser_valid)
    then have "\<bar>r\<bar> + \<bar>p_x p\<bar> < 99" using assms(2) by simp
    then show ?thesis unfolding b by (rule beam_factor_far_map)
  qed
  then show "list_all (\<lambda>b. beam_factor far_map p b = Inr NaN) (selected_beams (filter_laser ranges))"
    by (simp add: list_all_iff)
qed

text \<open>
  C5 (the code departs from the claim). The claim: with at least 25 valid readings the
  weight is strictly positive, also when a beam ends outside the map. On the far map
  every beam of a scan of 25 readings of one metre ends outside the map, the field
  query returns \<open>nan\<close>, the density of \<open>nan\<close> is \<open>nan\<close>, and the weight the step
  stores is \<open>nan\<close>, which is not a positive number. No exception is raised.
\<close>

theorem update_particles_with_laser_nan_weight:
  "length (filter_laser (replicate 25 (Num 1))) = 25
   \<and> snd (update_particles_with_laser far_state (replicate 25 (Num 1))) = None
   \<and> map p_w (particle_cloud (fst (update_particles_with_laser far_state (replicate 25 (Num 1)))))
       = [NaN]"
proof -
  have len: "length (filter_laser (replicate 25 (Num 1))) = 25"
    unfolding filter_laser_def by (rule length_filter_laser_replicate)
  then have ge: "num_pt_check \<le> length (filter_laser (replicate 25 (Num 1)))"
    by (simp add: num_pt_check_def)
  have "\<bar>p_x (Particle 0 0 0)\<bar> < 95" by (simp add: Particle_def)
  then have "density_loop far_map (Particle 0 0 0)
      (selected_beams (filter_laser (replicate 25 (Num 1)))) (Num 1) = Inr NaN"
    by (rule weight_far_map [OF ge])
  then show ?thesis
    using len ge
    by (simp add: update_particles_with_laser_def far_state_def base_state_def Let_def)
qed

text \<open>
  The part of the claim that holds: a factor that is a number exceeds 1, so a weight
  that is a number is at least 1. A weight is \<open>nan\<close> as soon as one beam ends outside
  the map.
\<close>

lemma get_closest_obstacle_distance_values:
  "get_closest_obstacle_distance f x y = Inr d \<Longrightarrow> d = NaN \<or> (\<exists>r. d = Num r)"
  by (auto simp: get_closest_obstacle_distance_def Let_def split: if_splits option.splits)

lemma beam_factor_values:
  assumes "beam_factor f p b = Inr q"
  shows "q = NaN \<or> (\<exists>u. q = Num u \<and> 1 < u)"
proof -
  obtain i r where b: "b = (i, r)" by (cases b)
  from assms obtain d x y where d: "get_closest_obstacle_distance f x y = Inr d"
    and q: "q = fadd (Num 1) (norm_pdf 0 0.05 d)"
    unfolding b by (auto simp: beam_factor_def Let_def split: sum.splits)
  from get_closest_obstacle_distance_values [OF d] show ?thesis
  proof
    assume "d = NaN"
    then show ?thesis using q by simp
  next
    assume "\<exists>r. d = Num r"
    then obtain u where u: "d = Num u" by blast
    have "0 < exp (- ((u / 0.05) ^ 2) / 2) / (0.05 * sqrt (2 * pi))"
      by simp
    then have "1 < 1 + exp (- (((u - 0) / 0.05) ^ 2) / 2) / (0.05 * sqrt (2 * pi))"
      by simp
    then show ?thesis using q u by simp
  qed
qed

lemma beam_factor_number:
  "beam_factor f p b = Inr (Num v) \<Longrightarrow> 1 < v"
  using beam_factor_values [of f p b "Num v"] by simp

lemma density_loop_from_nan:
  "density_loop f p bs NaN \<noteq> Inr (Num v)"
proof (induction bs)
  case Nil
  then show ?case by simp
next
  case (Cons b bs)
  then show ?case by (auto split: sum.splits)
qed

lemma density_loop_number:
  "density_loop f p beams (Num a) = Inr (Num v) \<Longrightarrow> 1 \<le> a \<Longrightarrow> 1 \<le> v"
proof (induction beams arbitrary: a)
  case Nil
  then show ?case by simp
next
  case (Cons b bs)
  from Cons.prems(1) obtain q where q: "beam_factor f p b = Inr q"
    and r: "density_loop f p bs (fmul (Num a) q) = Inr (Num v)"
    by (auto split: sum.splits)
  from beam_factor_values [OF q] show ?case
  proof
    assume "q = NaN"
    then show ?thesis using r density_loop_from_nan by simp
  next
    assume "\<exists>u. q = Num u \<and> 1 < u"
    then obtain u where u: "q = Num u" "1 < u" by blast
    then have "1 * 1 \<le> a * u" using Cons.prems(2)
      by (intro mult_mono) simp_all
    then have "1 \<le> a * u" by simp
    then show ?thesis using Cons.IH [of "a * u"] r u by simp
  qed
qed

subsection \<open>Resampling makes a new generation\<close>

lemma choice_member: "choice a p u = Inr v \<Longrightarrow> v \<in> set a"
  by (auto simp: choice_def Let_def split: if_splits option.splits)

lemma length_divide_weights_refs:
  "divide_weights_refs np s refs h = Inr h1 \<Longrightarrow> length h1 = length h"
proof (induction refs arbitrary: h)
  case Nil
  then show ?case by simp
next
  case (Cons a refs)
  then show ?case by (fastforce split: sum.splits)
qed

lemma length_normalize_particles_refs:
  "normalize_particles_refs h refs = Inr h1 \<Longrightarrow> length h1 = length h"
  by (simp add: normalize_particles_refs_def length_divide_weights_refs)

lemma draw_copies_fresh:
  assumes "list_all (\<lambda>a. a < length h) refs"
    and "draw_copies refs p us h = Inr (h', new)"
  shows "new = [length h..<length h + length us]
       \<and> (\<exists>chosen. set chosen \<subseteq> set refs \<and> length chosen = length us
             \<and> h' = h @ map (\<lambda>a. h ! a) chosen)"
  using assms
proof (induction us arbitrary: h h' new)
  case Nil
  then show ?case by simp
next
  case (Cons u us)
  from Cons.prems(2) obtain a h2 new2 where a: "choice refs p u = Inr a"
    and d: "draw_copies refs p us (h @ [h ! a]) = Inr (h2, new2)"
    and r: "h' = h2" "new = length h # new2"
    by (auto simp: deepcopy_def split: sum.splits prod.splits)
  have mem: "a \<in> set refs" using a by (rule choice_member)
  have v: "list_all (\<lambda>b. b < length (h @ [h ! a])) refs"
    using Cons.prems(1) by (auto simp: list_all_iff)
  from Cons.IH [OF v d] obtain chosen where n: "new2 = [length (h @ [h ! a])..<length (h @ [h ! a]) + length us]"
    and c: "set chosen \<subseteq> set refs" "length chosen = length us"
      "h2 = (h @ [h ! a]) @ map (\<lambda>b. (h @ [h ! a]) ! b) chosen"
    by blast
  have old: "(h @ [h ! a]) ! b = h ! b" if "b \<in> set chosen" for b
  proof -
    have "b < length h" using that c(1) Cons.prems(1) by (auto simp: list_all_iff)
    then show ?thesis by (simp add: nth_append)
  qed
  have "h2 = h @ map (\<lambda>b. h ! b) (a # chosen)"
    using c(3) old by (simp cong: map_cong)
  moreover have "set (a # chosen) \<subseteq> set refs" using mem c(1) by simp
  moreover have "length (a # chosen) = length (u # us)" using c(2) by simp
  moreover have "new = [length h..<length h + length (u # us)]"
  proof -
    have "[length h..<length h + length (u # us)]
        = length h # [Suc (length h)..<length h + length (u # us)]"
      by (rule upt_conv_Cons) simp
    moreover have "new2 = [Suc (length h)..<length h + length (u # us)]"
      unfolding n by simp
    ultimately show ?thesis using r(2) by simp
  qed
  ultimately show ?case unfolding r(1) by blast
qed

text \<open>
  C9. After a call of \<open>resample_particles\<close> that returns, on a store whose cloud holds
  valid addresses: the new cloud has exactly \<open>n_particles\<close> entries; they are
  pairwise different objects; none of them is an object of the previous cloud, nor any
  object that existed before the call; the objects that existed are left as the
  normalisation wrote them; and each new object has the fields of a particle of the
  previous cloud.
\<close>

theorem resample_particles_refs_fresh:
  assumes "list_all (\<lambda>a. a < length h) refs"
    and "resample_particles_refs n draws h refs = Inr (h', refs')"
  shows "length refs' = n
       \<and> distinct refs'
       \<and> set refs' \<inter> set refs = {}
       \<and> list_all (\<lambda>a. length h \<le> a \<and> a < length h') refs'
       \<and> (\<exists>h1. normalize_particles_refs h refs = Inr h1
             \<and> take (length h) h' = h1
             \<and> list_all (\<lambda>a. h' ! a \<in> set (map (\<lambda>b. h1 ! b) refs)) refs')"
proof -
  from assms(2) obtain h1 where n: "normalize_particles_refs h refs = Inr h1"
    and d: "draw_copies refs (map (\<lambda>a. p_w (h1 ! a)) refs) (map draws [0..<n]) h1 = Inr (h', refs')"
    by (auto simp: resample_particles_refs_def split: sum.splits)
  have len: "length h1 = length h" using n by (rule length_normalize_particles_refs)
  then have v: "list_all (\<lambda>a. a < length h1) refs" using assms(1) by simp
  from draw_copies_fresh [OF v d] obtain chosen where r: "refs' = [length h..<length h + n]"
    and c: "set chosen \<subseteq> set refs" "length chosen = n" "h' = h1 @ map (\<lambda>a. h1 ! a) chosen"
    using len by auto
  have l': "length h' = length h + n" using c(2,3) len by simp
  have disj: "set refs' \<inter> set refs = {}"
    using assms(1) unfolding r by (auto simp: list_all_iff)
  have copy: "h' ! a \<in> set (map (\<lambda>b. h1 ! b) refs)" if "a \<in> set refs'" for a
  proof -
    from that obtain i where i: "a = length h + i" "i < n"
      unfolding r by (auto simp: nat_le_iff_add)
    have "h' ! a = h1 ! (chosen ! i)"
      using i c(2) len unfolding c(3) by (simp add: nth_append)
    moreover have "chosen ! i \<in> set refs" using i(2) c(1,2) by auto
    ultimately show ?thesis by auto
  qed
  have "take (length h) h' = h1" using c(3) len by simp
  then show ?thesis
    using n r l' disj copy by (auto simp: list_all_iff)
qed


text \<open>The call on the store of two particles, three draws.\<close>

lemma normalize_two_store:
  "normalize_particles_refs two_store [0, Suc 0] =
     Inr [\<lparr>p_x = 0, p_y = 0, p_theta = 0, p_w = Num (1 / 4), w_numpy = False\<rparr>,
          \<lparr>p_x = 4, p_y = 0, p_theta = 0, p_w = Num (3 / 4), w_numpy = False\<rparr>]"
  by (simp add: normalize_particles_refs_def weight_sum_refs_def sum_numpy_refs_def fdiv_def
      two_store_def two_weights_def)

lemma choice_two_low: "choice [0, Suc 0] [Num (1 / 4), Num (3 / 4)] 0 = Inr 0"
  by (simp add: choice_def searchsorted_right_def Let_def)

lemma choice_two_high: "choice [0, Suc 0] [Num (1 / 4), Num (3 / 4)] (1 / 2) = Inr (Suc 0)"
  by (simp add: choice_def searchsorted_right_def Let_def)

lemma resample_two_store:
  "resample_particles_refs 3 half_draws two_store [0, 1] =
     Inr ([\<lparr>p_x = 0, p_y = 0, p_theta = 0, p_w = Num (1 / 4), w_numpy = False\<rparr>,
           \<lparr>p_x = 4, p_y = 0, p_theta = 0, p_w = Num (3 / 4), w_numpy = False\<rparr>,
           \<lparr>p_x = 0, p_y = 0, p_theta = 0, p_w = Num (1 / 4), w_numpy = False\<rparr>,
           \<lparr>p_x = 4, p_y = 0, p_theta = 0, p_w = Num (3 / 4), w_numpy = False\<rparr>,
           \<lparr>p_x = 0, p_y = 0, p_theta = 0, p_w = Num (1 / 4), w_numpy = False\<rparr>],
          [2, 3, 4])"
proof -
  have u: "map half_draws [0..<3] = [0, 1 / 2, 0]"
    by (simp add: half_draws_def upt_rec)
  show ?thesis
    by (simp add: resample_particles_refs_def normalize_two_store u choice_two_low
        choice_two_high deepcopy_def)
qed

theorem resample_particles_refs_fresh_witness:
  "list_all (\<lambda>a. a < length two_store) [0, 1]
   \<and> resample_particles_refs 3 half_draws two_store [0, 1] =
       Inr ([\<lparr>p_x = 0, p_y = 0, p_theta = 0, p_w = Num (1 / 4), w_numpy = False\<rparr>,
             \<lparr>p_x = 4, p_y = 0, p_theta = 0, p_w = Num (3 / 4), w_numpy = False\<rparr>,
             \<lparr>p_x = 0, p_y = 0, p_theta = 0, p_w = Num (1 / 4), w_numpy = False\<rparr>,
             \<lparr>p_x = 4, p_y = 0, p_theta = 0, p_w = Num (3 / 4), w_numpy = False\<rparr>,
             \<lparr>p_x = 0, p_y = 0, p_theta = 0, p_w = Num (1 / 4), w_numpy = False\<rparr>],
            [2, 3, 4])
   \<and> length [2, 3, 4 :: nat] = 3
   \<and> distinct [2, 3, 4 :: nat]
   \<and> set [2, 3, 4 :: nat] \<inter> set [0, 1] = {}"
proof -
  have v: "list_all (\<lambda>a. a < length two_store) [0, 1]"
    by (simp add: two_store_def two_weights_def)
  show ?thesis
    using v resample_two_store
      resample_particles_refs_fresh [OF v resample_two_store]
    by blast
qed


text \<open>
  The method on values computes what the method on the store does, for a cloud that
  lists no object twice: the values of the new objects are the particles drawn from the
  normalised values of the old ones. On values, too, a call that returns leaves
  \<open>n_particles\<close> particles.
\<close>

lemma length_draw_particles:
  "draw_particles cloud p us = Inr new \<Longrightarrow> length new = length us"
  by (induction us arbitrary: new) (auto split: sum.splits)

lemma length_resample_particles:
  "resample_particles st draws = (st', None) \<Longrightarrow> length (particle_cloud st') = n_particles st"
  by (auto simp: resample_particles_def dest: length_draw_particles split: sum.splits)

lemma weight_sum_refs_values:
  "weight_sum_refs h refs = weight_sum (map (\<lambda>a. h ! a) refs)"
  by (simp add: weight_sum_refs_def weight_sum_def comp_def)

lemma sum_numpy_refs_values:
  "sum_numpy_refs h refs = sum_numpy (map (\<lambda>a. h ! a) refs)"
  by (simp add: sum_numpy_refs_def sum_numpy_def list_ex_iff)

lemma divide_weights_refs_other:
  "divide_weights_refs np s refs h = Inr h1 \<Longrightarrow> a \<notin> set refs \<Longrightarrow> h1 ! a = h ! a"
proof (induction refs arbitrary: h)
  case Nil
  then show ?case by simp
next
  case (Cons b refs)
  from Cons.prems(1) obtain q where q: "fdiv (w_numpy (h ! b) \<or> np) (p_w (h ! b)) s = Inr q"
    and d: "divide_weights_refs np s refs
              (h[b := (h ! b)\<lparr>p_w := q, w_numpy := w_numpy (h ! b) \<or> np\<rparr>]) = Inr h1"
    by (auto split: sum.splits)
  have "h1 ! a = (h[b := (h ! b)\<lparr>p_w := q, w_numpy := w_numpy (h ! b) \<or> np\<rparr>]) ! a"
    using Cons.IH [OF d] Cons.prems(2) by simp
  then show ?case using Cons.prems(2) by simp
qed

lemma divide_weights_refs_values:
  assumes "divide_weights_refs np s refs h = Inr h1"
    and "distinct refs"
    and "list_all (\<lambda>a. a < length h) refs"
  shows "divide_weights np s (map (\<lambda>a. h ! a) refs) = Inr (map (\<lambda>a. h1 ! a) refs)"
  using assms
proof (induction refs arbitrary: h)
  case Nil
  then show ?case by simp
next
  case (Cons b refs)
  from Cons.prems(1) obtain q where q: "fdiv (w_numpy (h ! b) \<or> np) (p_w (h ! b)) s = Inr q"
    and d: "divide_weights_refs np s refs
              (h[b := (h ! b)\<lparr>p_w := q, w_numpy := w_numpy (h ! b) \<or> np\<rparr>]) = Inr h1"
    by (auto split: sum.splits)
  have nb: "b \<notin> set refs" and dr: "distinct refs" using Cons.prems(2) by simp_all
  have bl: "b < length h" using Cons.prems(3) by simp
  have v: "list_all (\<lambda>a. a < length (h[b := (h ! b)\<lparr>p_w := q, w_numpy := w_numpy (h ! b) \<or> np\<rparr>])) refs"
    using Cons.prems(3) by simp
  have same: "map (\<lambda>a. (h[b := (h ! b)\<lparr>p_w := q, w_numpy := w_numpy (h ! b) \<or> np\<rparr>]) ! a) refs = map (\<lambda>a. h ! a) refs"
  proof (rule map_cong [OF refl])
    fix a assume "a \<in> set refs"
    then have "a \<noteq> b" using nb by auto
    then show "(h[b := (h ! b)\<lparr>p_w := q, w_numpy := w_numpy (h ! b) \<or> np\<rparr>]) ! a = h ! a" by simp
  qed
  have ih: "divide_weights np s (map (\<lambda>a. h ! a) refs) = Inr (map (\<lambda>a. h1 ! a) refs)"
    using Cons.IH [OF d dr v] unfolding same .
  have "h1 ! b = (h[b := (h ! b)\<lparr>p_w := q, w_numpy := w_numpy (h ! b) \<or> np\<rparr>]) ! b"
    by (rule divide_weights_refs_other [OF d nb])
  then have "h1 ! b = (h ! b)\<lparr>p_w := q, w_numpy := w_numpy (h ! b) \<or> np\<rparr>" using bl by simp
  then show ?case using q ih by simp
qed

lemma choice_map:
  "choice (map f xs) p u = (case choice xs p u of Inl e \<Rightarrow> Inl e | Inr a \<Rightarrow> Inr (f a))"
  by (simp add: choice_def Let_def split: option.splits)

lemma draw_copies_values:
  assumes "list_all (\<lambda>a. a < length h) refs"
    and "draw_copies refs p us h = Inr (h', new)"
  shows "draw_particles (map (\<lambda>a. h ! a) refs) p us = Inr (map (\<lambda>a. h' ! a) new)"
  using assms
proof (induction us arbitrary: h new)
  case Nil
  then show ?case by simp
next
  case (Cons u us)
  from Cons.prems(2) obtain a new2 where a: "choice refs p u = Inr a"
    and d: "draw_copies refs p us (h @ [h ! a]) = Inr (h', new2)"
    and r: "new = length h # new2"
    by (auto simp: deepcopy_def split: sum.splits prod.splits)
  have v: "list_all (\<lambda>b. b < length (h @ [h ! a])) refs"
    using Cons.prems(1) by (auto simp: list_all_iff)
  have same: "map (\<lambda>b. (h @ [h ! a]) ! b) refs = map (\<lambda>b. h ! b) refs"
    using Cons.prems(1) by (auto simp: list_all_iff nth_append intro: map_cong)
  have ih: "draw_particles (map (\<lambda>b. h ! b) refs) p us = Inr (map (\<lambda>b. h' ! b) new2)"
    using Cons.IH [OF v d] unfolding same .
  from draw_copies_fresh [OF v d] obtain chosen where
    "h' = (h @ [h ! a]) @ map (\<lambda>b. (h @ [h ! a]) ! b) chosen"
    by blast
  then have "h' ! length h = h ! a" by (simp add: nth_append)
  then show ?case
    using a ih r by (simp add: choice_map)
qed

lemma resample_particles_refs_values:
  assumes "distinct refs"
    and "list_all (\<lambda>a. a < length h) refs"
    and "resample_particles_refs n draws h refs = Inr (h', refs')"
  shows "\<exists>cloud. normalize_particles (map (\<lambda>a. h ! a) refs) = Inr cloud
           \<and> draw_particles cloud (map p_w cloud) (map draws [0..<n])
               = Inr (map (\<lambda>a. h' ! a) refs')"
proof -
  from assms(3) obtain h1 where n: "normalize_particles_refs h refs = Inr h1"
    and d: "draw_copies refs (map (\<lambda>a. p_w (h1 ! a)) refs) (map draws [0..<n]) h1 = Inr (h', refs')"
    by (auto simp: resample_particles_refs_def split: sum.splits)
  have len: "length h1 = length h" using n by (rule length_normalize_particles_refs)
  then have v: "list_all (\<lambda>a. a < length h1) refs" using assms(2) by simp
  have "normalize_particles (map (\<lambda>a. h ! a) refs) = Inr (map (\<lambda>a. h1 ! a) refs)"
    using n divide_weights_refs_values [OF _ assms(1,2)]
    by (simp add: normalize_particles_refs_def normalize_particles_def weight_sum_refs_values
        sum_numpy_refs_values)
  moreover have "draw_particles (map (\<lambda>a. h1 ! a) refs) (map p_w (map (\<lambda>a. h1 ! a) refs))
      (map draws [0..<n]) = Inr (map (\<lambda>a. h' ! a) refs')"
    using draw_copies_values [OF v d] by (simp add: comp_def)
  ultimately show ?thesis by blast
qed

subsection \<open>Resampling returns on a valid distribution\<close>

text \<open>
  A call returns when the cloud lists no object twice, the weights are non-negative
  numbers of positive total, and every uniform draw is below 1: the normalised weights
  sum to 1, so every draw of \<open>choice\<close> finds its particle.
\<close>

lemma length_cumsum: "length (cumsum acc ps) = length ps"
  by (induction ps arbitrary: acc) simp_all

lemma last_cumsum: "ps \<noteq> [] \<Longrightarrow> last (cumsum acc ps) = acc + sum_list ps"
proof (induction ps arbitrary: acc)
  case Nil
  then show ?case by simp
next
  case (Cons r rs)
  show ?case
  proof (cases rs)
    case Nil
    then show ?thesis by simp
  next
    case (Cons q qs)
    then have "rs \<noteq> []" by simp
    then have "last (cumsum (acc + r) rs) = acc + r + sum_list rs"
      by (rule Cons.IH)
    moreover have "cumsum (acc + r) rs \<noteq> []" using Cons by simp
    ultimately show ?thesis by simp
  qed
qed

lemma length_nums: "nums p = Some ps \<Longrightarrow> length ps = length p"
proof (induction p arbitrary: ps)
  case Nil
  then show ?case by simp
next
  case (Cons q qs)
  then show ?case by (cases q) (auto split: option.splits)
qed

lemma choice_returns:
  assumes "a \<noteq> []" and "length p = length a" and "nums p = Some ps"
    and "list_all (\<lambda>q. 0 \<le> q) ps" and "sum_list ps = 1" and "u < 1"
  shows "\<exists>v. choice a p u = Inr v"
proof -
  have lp: "length ps = length a" using length_nums [OF assms(3)] assms(2) by simp
  then have ne: "ps \<noteq> []" using assms(1) by auto
  have l: "last (cumsum 0 ps) = 1" using last_cumsum [OF ne, of 0] assms(5) by simp
  have cdf: "map (\<lambda>c. c / last (cumsum 0 ps)) (cumsum 0 ps) = cumsum 0 ps"
    unfolding l by simp
  have cne: "cumsum 0 ps \<noteq> []" using ne length_cumsum [of 0 ps] by auto
  have "last (cumsum 0 ps) \<in> set (cumsum 0 ps)" using cne by (rule last_in_set)
  moreover have "\<not> last (cumsum 0 ps) \<le> u" unfolding l using assms(6) by simp
  ultimately have "\<not> (\<forall>c\<in>set (cumsum 0 ps). c \<le> u)" by blast
  then have "takeWhile (\<lambda>c. c \<le> u) (cumsum 0 ps) \<noteq> cumsum 0 ps"
    by (simp add: takeWhile_eq_all_conv)
  then have "length (takeWhile (\<lambda>c. c \<le> u) (cumsum 0 ps)) < length (cumsum 0 ps)"
    using length_takeWhile_le [of "\<lambda>c. c \<le> u" "cumsum 0 ps"]
    by (metis le_neq_implies_less takeWhile_eq_take take_all_iff order_refl)
  then have idx: "searchsorted_right (cumsum 0 ps) u < length a"
    by (simp add: searchsorted_right_def length_cumsum lp)
  have nonneg: "\<not> list_ex (\<lambda>q. q < 0) ps"
    using assms(4) by (auto simp: list_ex_iff list_all_iff)
  show ?thesis
    using assms(1,2,3,5) nonneg idx
    by (simp add: choice_def Let_def cdf)
qed

lemma divide_weights_refs_returns:
  "s \<noteq> Num 0 \<Longrightarrow> \<exists>h1. divide_weights_refs np s refs h = Inr h1"
proof (induction refs arbitrary: h)
  case Nil
  then show ?case by simp
next
  case (Cons a refs)
  obtain q where "fdiv (w_numpy (h ! a) \<or> np) (p_w (h ! a)) s = Inr q"
    using Cons.prems by (simp add: fdiv_def)
  then show ?case using Cons.IH [OF Cons.prems] by simp
qed

lemma draw_copies_returns:
  "list_all (\<lambda>u. \<exists>a. choice refs p u = Inr a) us \<Longrightarrow> \<exists>r. draw_copies refs p us h = Inr r"
proof (induction us arbitrary: h)
  case Nil
  then show ?case by simp
next
  case (Cons u us)
  from Cons.prems obtain a where a: "choice refs p u = Inr a" by auto
  from Cons.prems have "list_all (\<lambda>u. \<exists>a. choice refs p u = Inr a) us" by simp
  from Cons.IH [OF this, of "h @ [h ! a]"] obtain r where
    "draw_copies refs p us (h @ [h ! a]) = Inr r" by blast
  then show ?case using a by (cases r) (simp add: deepcopy_def)
qed

lemma resample_particles_refs_returns:
  assumes "distinct refs"
    and "list_all (\<lambda>a. a < length h) refs"
    and "nums (map (\<lambda>a. p_w (h ! a)) refs) = Some ws"
    and "list_all (\<lambda>v. 0 \<le> v) ws"
    and "0 < sum_list ws"
    and "\<And>i. draws i < 1"
  shows "\<exists>h' refs'. resample_particles_refs n draws h refs = Inr (h', refs')"
proof -
  let ?cloud = "map (\<lambda>a. h ! a) refs"
  let ?s = "sum_list ws"
  have w: "nums (map p_w ?cloud) = Some ws" using assms(3) by (simp add: comp_def)
  have s: "weight_sum_refs h refs = Num ?s"
    using weight_sum_nums [OF w] by (simp add: weight_sum_refs_values)
  let ?np = "sum_numpy_refs h refs"
  have s0: "?s \<noteq> 0" using assms(5) by simp
  obtain h1 where h1: "divide_weights_refs ?np (Num ?s) refs h = Inr h1"
    using divide_weights_refs_returns [of "Num ?s" ?np refs h] s0 by auto
  then have n: "normalize_particles_refs h refs = Inr h1"
    by (simp add: normalize_particles_refs_def s)
  let ?c = "map (scaled ?np (Num ?s)) ?cloud"
  have "divide_weights ?np (Num ?s) ?cloud = Inr (map (\<lambda>a. h1 ! a) refs)"
    by (rule divide_weights_refs_values [OF h1 assms(1,2)])
  then have eq: "map (\<lambda>a. h1 ! a) refs = ?c"
    using divide_weights_nonzero [OF s0, of ?np ?cloud] by simp
  have "map (\<lambda>a. p_w (h1 ! a)) refs = map p_w (map (\<lambda>a. h1 ! a) refs)"
    by (simp add: comp_def)
  also have "\<dots> = map p_w ?c" by (simp only: eq)
  finally have p: "nums (map (\<lambda>a. p_w (h1 ! a)) refs) = Some (map (\<lambda>v. v / ?s) ws)"
    using nums_map_scaled [OF w s0, of ?np] by (simp only:)
  have ne: "refs \<noteq> []" using assms(3,5) by auto
  have "\<exists>a. choice refs (map (\<lambda>a. p_w (h1 ! a)) refs) u = Inr a" if "u < 1" for u
  proof (rule choice_returns [OF ne _ p _ _ that])
    show "length (map (\<lambda>a. p_w (h1 ! a)) refs) = length refs" by simp
    show "list_all (\<lambda>q. 0 \<le> q) (map (\<lambda>v. v / ?s) ws)"
      by (rule list_all_div [OF assms(4,5)])
    show "sum_list (map (\<lambda>v. v / ?s) ws) = 1" using s0 by (simp add: sum_list_div)
  qed
  then have "list_all (\<lambda>u. \<exists>a. choice refs (map (\<lambda>a. p_w (h1 ! a)) refs) u = Inr a)
      (map draws [0..<n])"
    using assms(6) by (simp add: list_all_iff)
  from draw_copies_returns [OF this, of h1] obtain r where
    "draw_copies refs (map (\<lambda>a. p_w (h1 ! a)) refs) (map draws [0..<n]) h1 = Inr r"
    by blast
  then show ?thesis
    by (cases r) (simp add: resample_particles_refs_def n)
qed

subsection \<open>What a nan weight does next\<close>

text \<open>
  A \<open>nan\<close> total is not a zero total: the division does not raise, and every weight
  becomes \<open>nan\<close>. The resampling that follows is refused by \<open>choice\<close>.
\<close>

lemma normalize_particles_nan_total:
  "weight_sum cloud = NaN \<Longrightarrow>
   normalize_particles cloud = Inr (map (scaled (sum_numpy cloud) NaN) cloud)"
  by (simp add: normalize_particles_def divide_weights_nan)

lemma resample_particles_nan_total:
  assumes "weight_sum (particle_cloud st) = NaN"
    and "particle_cloud st \<noteq> []"
    and "0 < n_particles st"
  shows "snd (resample_particles st draws) = Some ValueError"
proof -
  let ?c = "map (scaled (sum_numpy (particle_cloud st)) NaN) (particle_cloud st)"
  have n: "normalize_particles (particle_cloud st) = Inr ?c"
    by (rule normalize_particles_nan_total [OF assms(1)])
  obtain p ps where c: "particle_cloud st = p # ps" using assms(2) by (cases "particle_cloud st") auto
  have ch: "choice ?c (map p_w ?c) u = Inl ValueError" for u
    by (simp add: choice_def c scaled_def quotient_nan)
  obtain k where k: "n_particles st = Suc k" using assms(3) by (cases "n_particles st") auto
  have "[0..<Suc k] = 0 # [Suc 0..<Suc k]" by (rule upt_conv_Cons) simp
  then have "map draws [0..<n_particles st] = draws 0 # map draws [Suc 0..<Suc k]"
    unfolding k by (simp only: list.map)
  then have "draw_particles ?c (map p_w ?c) (map draws [0..<n_particles st]) = Inl ValueError"
    using ch by simp
  then show ?thesis by (simp add: resample_particles_def n)
qed

subsection \<open>The movement gate of the scan callback\<close>

text \<open>
  On the map whose cells are all occupied, a beam from a particle near the origin ends
  inside the map, every factor is a number, and so is the weight.
\<close>

lemma py_int_bounds:
  assumes "0 \<le> t" and "t < 9"
  shows "0 \<le> py_int t \<and> py_int t \<le> 8"
proof -
  have "py_int t = \<lfloor>t\<rfloor>" using assms(1) by (simp add: py_int_def)
  moreover have "0 \<le> \<lfloor>t\<rfloor>" using assms(1) by simp
  moreover have "\<lfloor>t\<rfloor> < 9" using assms(2) by (simp add: floor_less_iff)
  ultimately show ?thesis by simp
qed

lemma full_map_inside:
  assumes "\<bar>x\<bar> < 4" and "\<bar>y\<bar> < 4"
  shows "get_closest_obstacle_distance full_map x y = Inr (Num 0)"
proof -
  define xc where "xc = py_int (x + 5)"
  define yc where "yc = py_int (y + 5)"
  have x: "0 \<le> xc \<and> xc \<le> 8"
    unfolding xc_def using assms(1) by (intro py_int_bounds) linarith+
  have y: "0 \<le> yc \<and> yc \<le> 8"
    unfolding yc_def using assms(2) by (intro py_int_bounds) linarith+
  have ind: "0 \<le> xc + yc * 10 \<and> xc + yc * 10 < 100" using x y by linarith
  have "get_closest_obstacle_distance full_map x y =
      (if xc > 10 \<or> xc < 0 then Inr NaN
       else if yc > 10 \<or> yc < 0 then Inr NaN
       else if xc + yc * 10 \<ge> 100 \<or> xc + yc * 10 < 0 then Inr NaN
       else (case (if 0 \<le> xc + yc * 10 \<and> xc + yc * 10 < 100 then Some (0::real) else None) of
               None \<Rightarrow> Inl KeyError | Some d \<Rightarrow> Inr (Num d)))"
    by (simp add: get_closest_obstacle_distance_def full_map_def Let_def xc_def yc_def)
  also have "\<dots> = Inr (Num 0)" using x y ind by simp
  finally show ?thesis .
qed


lemma beam_factor_full_map:
  assumes "0 < r" and "r < 3.5" and "\<bar>p_x p\<bar> < 0.5" and "\<bar>p_y p\<bar> < 0.5"
  shows "\<exists>u. beam_factor full_map p (i, r) = Inr (Num u)"
proof -
  let ?a = "py_fmod (real i + 0.25 * TAU) TAU + p_theta p"
  have c: "\<bar>cos ?a * r\<bar> \<le> \<bar>r\<bar>"
    using abs_cos_le_one [of ?a] by (simp add: abs_mult mult_left_le_one_le)
  have s: "\<bar>sin ?a * r\<bar> \<le> \<bar>r\<bar>"
    using abs_sin_le_one [of ?a] by (simp add: abs_mult mult_left_le_one_le)
  have "\<bar>cos ?a * r + p_x p\<bar> < 4" using c assms by linarith
  moreover have "\<bar>sin ?a * r + p_y p\<bar> < 4" using s assms by linarith
  ultimately have "get_closest_obstacle_distance full_map (cos ?a * r + p_x p) (sin ?a * r + p_y p)
      = Inr (Num 0)"
    by (rule full_map_inside)
  then show ?thesis by (simp add: beam_factor_def Let_def)
qed

lemma density_loop_numbers:
  assumes "list_all (\<lambda>b. \<exists>u. beam_factor f p b = Inr (Num u)) beams"
  shows "\<exists>v. density_loop f p beams (Num a) = Inr (Num v)"
  using assms
proof (induction beams arbitrary: a)
  case Nil
  then show ?case by simp
next
  case (Cons b bs)
  from Cons.prems obtain u where u: "beam_factor f p b = Inr (Num u)" by auto
  from Cons.prems have "list_all (\<lambda>b. \<exists>u. beam_factor f p b = Inr (Num u)) bs" by simp
  from Cons.IH [OF this, of "a * u"] show ?case using u by simp
qed

lemma weight_full_map:
  assumes "num_pt_check \<le> length (filter_laser ranges)"
    and "\<bar>p_x p\<bar> < 0.5" and "\<bar>p_y p\<bar> < 0.5"
  shows "\<exists>v. density_loop full_map p (selected_beams (filter_laser ranges)) (Num 1) = Inr (Num v)
             \<and> 1 \<le> v"
proof -
  have "\<exists>u. beam_factor full_map p b = Inr (Num u)"
    if "b \<in> set (selected_beams (filter_laser ranges))" for b
  proof -
    obtain i r where b: "b = (i, r)" by (cases b)
    have "(i, r) \<in> set (filter_laser ranges)"
      using that selected_beams_subset [OF assms(1)] b by auto
    then have "0 < r \<and> r < 3.5" by (rule filter_laser_valid)
    then show ?thesis unfolding b using assms(2,3) by (intro beam_factor_full_map) simp_all
  qed
  then have "list_all (\<lambda>b. \<exists>u. beam_factor full_map p b = Inr (Num u))
      (selected_beams (filter_laser ranges))"
    by (simp add: list_all_iff)
  from density_loop_numbers [OF this, of 1] obtain v where
    v: "density_loop full_map p (selected_beams (filter_laser ranges)) (Num 1) = Inr (Num v)"
    by blast
  then have "1 \<le> v" using density_loop_number [OF v] by simp
  then show ?thesis using v by blast
qed

lemma draw_particles_same:
  assumes "\<And>u. u \<in> set us \<Longrightarrow> choice cloud p u = Inr q"
  shows "draw_particles cloud p us = Inr (replicate (length us) q)"
  using assms by (induction us) simp_all

lemma resample_particles_single:
  assumes "particle_cloud st = [q]" and "p_w q = Num v" and "0 < v" and "\<And>i. draws i < 1"
  shows "resample_particles st draws =
     (st\<lparr>particle_cloud := replicate (n_particles st) (q\<lparr>p_w := Num 1\<rparr>)\<rparr>, None)"
proof -
  let ?q = "q\<lparr>p_w := Num 1\<rparr>"
  have n: "normalize_particles [q] = Inr [?q]"
    using assms(2,3)
    by (simp add: normalize_particles_def weight_sum_def sum_numpy_def fdiv_def)
  have "searchsorted_right [1] u = 0" if "u < 1" for u :: real
    using that by (simp add: searchsorted_right_def)
  then have ch: "choice [?q] [Num 1] u = Inr ?q" if "u < 1" for u
    using that by (simp add: choice_def Let_def)
  have "draw_particles [?q] [Num 1] (map draws [0..<n_particles st])
      = Inr (replicate (length (map draws [0..<n_particles st])) ?q)"
    by (rule draw_particles_same) (use ch assms(4) in auto)
  then show ?thesis
    by (simp add: resample_particles_def assms(1) n)
qed

lemma nums_replicate: "nums (replicate n (Num r)) = Some (replicate n r)"
  by (induction n) simp_all

text \<open>
  What the steps of a cycle leave alone, and what they leave when nothing is raised.
\<close>

lemma update_robot_pose_replicate:
  assumes "particle_cloud st = replicate n q" and "p_w q = Num 1" and "0 < n"
  shows "snd (update_robot_pose st) = None
       \<and> robot_pose (fst (update_robot_pose st)) = (Num (p_x q), Num (p_y q), Num (p_theta q))
       \<and> length (particle_cloud (fst (update_robot_pose st))) = n"
proof -
  have w: "nums (map p_w (particle_cloud st)) = Some (replicate n 1)"
    using assms(1,2) by (simp add: nums_replicate)
  have s: "sum_list (replicate n (1::real)) \<noteq> 0"
    using assms(3) by (simp add: sum_list_replicate)
  have m: "weighted_mean (replicate n 1) (replicate n c) = c" for c :: real
    using assms(3) by (simp add: weighted_mean_def zip_replicate sum_list_replicate)
  show ?thesis
    using update_robot_pose_nums [OF w s] by (simp add: assms(1) m)
qed


lemma length_divide_weights:
  "divide_weights np s cloud = Inr cloud' \<Longrightarrow> length cloud' = length cloud"
proof (induction cloud arbitrary: cloud')
  case Nil
  then show ?case by simp
next
  case (Cons p ps)
  then show ?case by (auto split: sum.splits)
qed

lemma length_normalize_particles:
  "normalize_particles cloud = Inr cloud' \<Longrightarrow> length cloud' = length cloud"
  unfolding normalize_particles_def by (rule length_divide_weights)

lemma update_particles_with_odom_frame:
  "events (update_particles_with_odom st noise) = events st
   \<and> n_particles (update_particles_with_odom st noise) = n_particles st
   \<and> current_odom_xy_theta (update_particles_with_odom st noise) = Some (odom_pose st)"
  by (simp add: update_particles_with_odom_def Let_def split: option.splits prod.splits)

lemma update_particles_with_laser_frame:
  assumes "update_particles_with_laser st ranges = (st', e)"
  shows "events st' = events st \<and> n_particles st' = n_particles st
       \<and> current_odom_xy_theta st' = current_odom_xy_theta st"
  using assms
  by (auto simp: update_particles_with_laser_def Let_def split: if_splits prod.splits)

lemma resample_particles_frame:
  assumes "resample_particles st draws = (st', e)"
  shows "events st' = events st \<and> n_particles st' = n_particles st
       \<and> current_odom_xy_theta st' = current_odom_xy_theta st"
  using assms by (auto simp: resample_particles_def split: sum.splits)

lemma update_robot_pose_frame:
  assumes "update_robot_pose st = (st', e)"
  shows "events st' = events st \<and> n_particles st' = n_particles st
       \<and> current_odom_xy_theta st' = current_odom_xy_theta st
       \<and> (e = None \<longrightarrow> robot_pose st' = mean_pose (particle_cloud st')
                     \<and> length (particle_cloud st') = length (particle_cloud st))"
  using assms
  by (auto simp: update_robot_pose_def length_normalize_particles split: sum.splits)

text \<open>
  C4 (as amended). For an initialised filter with a cloud and a baseline, on a scan for
  which both transforms are available: the cycle is started exactly when the change of
  \<open>x\<close>, or that of \<open>y\<close>, exceeds \<open>d_thresh\<close>, or the change of \<open>theta\<close> exceeds
  \<open>a_thresh\<close>, each taken as an absolute difference on its own. A started cycle
  publishes the raw cloud, then runs the motion step, the sensor step, the resampling
  (which normalises first) and the pose estimate, each on the state the step before
  left, and stops at the first step that raises. When nothing is raised, the baseline
  is the new odometry, the cloud has \<open>n_particles\<close> particles, the pose estimate is the
  weighted mean of that cloud, and the five calls that leave the node were made in
  order. When no cycle is started, the call only stores the odometry pose and
  publishes the cloud: the particles, the pose estimate and the baseline stay as they
  were.
\<close>

theorem scan_received_gate:
  assumes "initialized st"
    and "can_transform_laser msg"
    and "can_transform_odom msg"
    and "particle_cloud st \<noteq> []"
    and "current_odom_xy_theta st = Some cur"
    and "st0 = st\<lparr>odom_pose := odom_lookup msg\<rparr>"
    and "scan_received st msg rnd = (st', err)"
  shows "(moved_enough st (odom_lookup msg) cur \<longrightarrow>
            (st', err) =
              and_then (update_particles_with_laser
                          (publish_particles Odomcloud
                             (update_particles_with_odom (publish_particles Rawcloud st0)
                                (odom_noises rnd)))
                          (msg_ranges msg))
                (\<lambda>st4. and_then (resample_particles (publish_particles Lasercloud st4)
                                    (resample_draws rnd))
                   (\<lambda>st5. and_then (update_robot_pose st5)
                      (\<lambda>st6. (publish_particles Finalcloud (fix_map_to_odom_transform st6),
                              None))))
            \<and> (err = None \<longrightarrow>
                 current_odom_xy_theta st' = Some (odom_lookup msg)
                 \<and> length (particle_cloud st') = n_particles st
                 \<and> robot_pose st' = mean_pose (particle_cloud st')
                 \<and> (\<exists>c2. events st' = events st @
                       [Publish Rawcloud (particle_cloud st),
                        Publish Odomcloud
                          (particle_cloud (update_particles_with_odom st0 (odom_noises rnd))),
                        Publish Lasercloud c2, FixMapToOdom,
                        Publish Finalcloud (particle_cloud st')])))
       \<and> (\<not> moved_enough st (odom_lookup msg) cur \<longrightarrow>
            (st', err) = (publish_particles Finalcloud st0, None)
            \<and> particle_cloud st' = particle_cloud st
            \<and> robot_pose st' = robot_pose st
            \<and> current_odom_xy_theta st' = current_odom_xy_theta st)
       \<and> (Publish Rawcloud (particle_cloud st) \<in> set (drop (length (events st)) (events st'))
            \<longleftrightarrow> moved_enough st (odom_lookup msg) cur)"
proof (cases "moved_enough st (odom_lookup msg) cur")
  case False
  have m: "moved_enough (st\<lparr>odom_pose := od\<rparr>) new cur = moved_enough st new cur" for new od
    by (simp add: moved_enough_def)
  have "scan_received st msg rnd = (publish_particles Finalcloud st0, None)"
    using assms(1-6) False by (simp add: scan_received_def Let_def m and_then_def)
  then have r: "st' = publish_particles Finalcloud st0" "err = None"
    using assms(7) by simp_all
  show ?thesis
    using False unfolding r by (simp add: publish_particles_def assms(6))
next
  case True
  have m: "moved_enough (st\<lparr>odom_pose := od\<rparr>) new cur = moved_enough st new cur" for new od
    by (simp add: moved_enough_def)
  define st2 where "st2 = update_particles_with_odom (publish_particles Rawcloud st0) (odom_noises rnd)"
  define st3 where "st3 = publish_particles Odomcloud st2"
  obtain st4 e4 where l: "update_particles_with_laser st3 (msg_ranges msg) = (st4, e4)"
    by (cases "update_particles_with_laser st3 (msg_ranges msg)")
  obtain st5 e5 where r: "resample_particles (publish_particles Lasercloud st4) (resample_draws rnd) = (st5, e5)"
    by (cases "resample_particles (publish_particles Lasercloud st4) (resample_draws rnd)")
  obtain st6 e6 where u: "update_robot_pose st5 = (st6, e6)"
    by (cases "update_robot_pose st5")
  have run: "(st', err) =
      and_then (update_particles_with_laser st3 (msg_ranges msg))
        (\<lambda>st4. and_then (resample_particles (publish_particles Lasercloud st4) (resample_draws rnd))
           (\<lambda>st5. and_then (update_robot_pose st5)
              (\<lambda>st6. (publish_particles Finalcloud (fix_map_to_odom_transform st6), None))))"
    using assms(1-6) True assms(7) [symmetric]
    by (simp add: scan_received_def Let_def m filter_cycle_def st3_def st2_def and_then_def
        split: prod.splits option.splits)
  have cloud2: "particle_cloud st2 = particle_cloud (update_particles_with_odom st0 (odom_noises rnd))"
    by (simp add: st2_def update_particles_with_odom_def publish_particles_def Let_def
        split: option.splits prod.splits)
  have e2: "events st2 = events st @ [Publish Rawcloud (particle_cloud st)]"
    using update_particles_with_odom_frame [of "publish_particles Rawcloud st0" "odom_noises rnd"]
    by (simp add: st2_def publish_particles_def assms(6))
  have e3: "events st3 = events st @ [Publish Rawcloud (particle_cloud st),
      Publish Odomcloud (particle_cloud (update_particles_with_odom st0 (odom_noises rnd)))]"
    by (simp add: st3_def publish_particles_def e2 cloud2)
  have f3: "n_particles st3 = n_particles st \<and> current_odom_xy_theta st3 = Some (odom_lookup msg)"
    using update_particles_with_odom_frame [of "publish_particles Rawcloud st0" "odom_noises rnd"]
    by (simp add: st3_def st2_def publish_particles_def assms(6))
  have f4: "events st4 = events st3 \<and> n_particles st4 = n_particles st
      \<and> current_odom_xy_theta st4 = Some (odom_lookup msg)"
    using update_particles_with_laser_frame [OF l] f3 by simp
  have raw: "Publish Rawcloud (particle_cloud st) \<in> set (drop (length (events st)) (events st'))"
  proof -
    have "\<exists>more. events st' = events st @ Publish Rawcloud (particle_cloud st) # more"
    proof (cases e4)
      case (Some e)
      then show ?thesis using run l f4 e3 by (simp add: and_then_def)
    next
      case None
      note n4 = None
      have f5: "events st5 = events st4 @ [Publish Lasercloud (particle_cloud st4)]"
        using resample_particles_frame [OF r] by (simp add: publish_particles_def)
      show ?thesis
      proof (cases e5)
        case (Some e)
        then show ?thesis using run l r n4 f4 f5 e3 by (simp add: and_then_def)
      next
        case None
        note n5 = None
        have f6: "events st6 = events st5" using update_robot_pose_frame [OF u] by simp
        show ?thesis
          using run l r u n4 n5 f4 f5 f6 e3
          by (cases e6) (simp_all add: and_then_def publish_particles_def
              fix_map_to_odom_transform_def)
      qed
    qed
    then show ?thesis by auto
  qed
  have complete: "current_odom_xy_theta st' = Some (odom_lookup msg)
      \<and> length (particle_cloud st') = n_particles st
      \<and> robot_pose st' = mean_pose (particle_cloud st')
      \<and> (\<exists>c2. events st' = events st @
            [Publish Rawcloud (particle_cloud st),
             Publish Odomcloud (particle_cloud (update_particles_with_odom st0 (odom_noises rnd))),
             Publish Lasercloud c2, FixMapToOdom, Publish Finalcloud (particle_cloud st')])"
    if "err = None"
  proof -
    have n: "e4 = None \<and> e5 = None \<and> e6 = None"
      using run l r u that by (auto simp: and_then_def split: option.splits)
    then have s': "st' = publish_particles Finalcloud (fix_map_to_odom_transform st6)"
      using run l r u by (simp add: and_then_def)
    have f5: "events st5 = events st4 @ [Publish Lasercloud (particle_cloud st4)]
        \<and> n_particles st5 = n_particles st
        \<and> current_odom_xy_theta st5 = Some (odom_lookup msg)"
      using resample_particles_frame [OF r] f4 by (simp add: publish_particles_def)
    have l5: "length (particle_cloud st5) = n_particles st"
      using length_resample_particles [of "publish_particles Lasercloud st4" "resample_draws rnd" st5]
        r n f4
      by (simp add: publish_particles_def)
    have f6: "events st6 = events st5 \<and> current_odom_xy_theta st6 = Some (odom_lookup msg)
        \<and> robot_pose st6 = mean_pose (particle_cloud st6)
        \<and> length (particle_cloud st6) = n_particles st"
      using update_robot_pose_frame [OF u] n f5 l5 by simp
    show ?thesis
      unfolding s'
      using f6 f5 f4 e3
      by (simp add: publish_particles_def fix_map_to_odom_transform_def)
  qed
  show ?thesis
    using True run raw complete unfolding st3_def st2_def by blast
qed


text \<open>
  A cycle that runs through with the sensor step at work: on the occupied map, after a
  move of 0.05 along \<open>x\<close>, with 25 valid readings.
\<close>

lemma tour_cycle:
  "\<exists>st'. and_then (update_particles_with_laser
                      (publish_particles Odomcloud
                         (update_particles_with_odom
                            (publish_particles Rawcloud (tour_state\<lparr>odom_pose := (0.05, 0, 0)\<rparr>))
                            (odom_noises quiet)))
                      (msg_ranges tour_scan))
            (\<lambda>st4. and_then (resample_particles (publish_particles Lasercloud st4)
                                (resample_draws quiet))
               (\<lambda>st5. and_then (update_robot_pose st5)
                  (\<lambda>st6. (publish_particles Finalcloud (fix_map_to_odom_transform st6), None))))
          = (st', None)
        \<and> robot_pose st' = (Num 0.05, Num 0, Num 0)"
proof -
  let ?P = "\<lparr>p_x = 0.05, p_y = 0, p_theta = 0, p_w = Num 1, w_numpy = False\<rparr>"
  define st3 where "st3 = publish_particles Odomcloud
      (update_particles_with_odom
         (publish_particles Rawcloud (tour_state\<lparr>odom_pose := (0.05, 0, 0)\<rparr>))
         (odom_noises quiet))"
  have c3: "particle_cloud st3 = [?P]"
    by (simp add: st3_def publish_particles_def update_particles_with_odom_def Let_def
        move_particle_def tour_state_def base_state_def quiet_def Particle_def atan2_def)
  have f3: "occupancy_field st3 = full_map" and n3: "n_particles st3 = 30"
    by (simp_all add: st3_def publish_particles_def update_particles_with_odom_def Let_def
        tour_state_def base_state_def)
  have len: "length (filter_laser (replicate 25 (Num 1))) = 25"
    unfolding filter_laser_def by (rule length_filter_laser_replicate)
  then have ge: "num_pt_check \<le> length (filter_laser (replicate 25 (Num 1)))"
    by (simp add: num_pt_check_def)
  obtain v where v: "density_loop full_map ?P
        (selected_beams (filter_laser (replicate 25 (Num 1)))) (Num 1) = Inr (Num v)"
    and v1: "1 \<le> v"
    using weight_full_map [OF ge, of ?P] by auto
  let ?Q = "\<lparr>p_x = 0.05, p_y = 0, p_theta = 0, p_w = Num v, w_numpy = True\<rparr>"
  define st4 where "st4 = st3\<lparr>particle_cloud := [?Q]\<rparr>"
  have l: "update_particles_with_laser st3 (msg_ranges tour_scan) = (st4, None)"
    using v ge
    by (simp add: update_particles_with_laser_def Let_def tour_scan_def c3 f3 st4_def
        selected_beams_not_empty)
  define st5 where "st5 = (publish_particles Lasercloud st4)
      \<lparr>particle_cloud := replicate (n_particles (publish_particles Lasercloud st4)) (?Q\<lparr>p_w := Num 1\<rparr>)\<rparr>"
  have r: "resample_particles (publish_particles Lasercloud st4) (resample_draws quiet) = (st5, None)"
    unfolding st5_def
  proof (rule resample_particles_single)
    show "particle_cloud (publish_particles Lasercloud st4) = [?Q]"
      by (simp add: publish_particles_def st4_def)
    show "p_w ?Q = Num v" by simp
    show "0 < v" using v1 by simp
    show "resample_draws quiet i < 1" for i by (simp add: quiet_def)
  qed
  have c5: "particle_cloud st5 = replicate 30 (?Q\<lparr>p_w := Num 1\<rparr>)"
    by (simp add: st5_def publish_particles_def st4_def n3)
  obtain st6 e6 where u: "update_robot_pose st5 = (st6, e6)"
    by (cases "update_robot_pose st5")
  have "snd (update_robot_pose st5) = None
      \<and> robot_pose (fst (update_robot_pose st5))
          = (Num (p_x (?Q\<lparr>p_w := Num 1\<rparr>)), Num (p_y (?Q\<lparr>p_w := Num 1\<rparr>)),
             Num (p_theta (?Q\<lparr>p_w := Num 1\<rparr>)))
      \<and> length (particle_cloud (fst (update_robot_pose st5))) = 30"
    by (rule update_robot_pose_replicate [OF c5]) simp_all
  then have e6: "e6 = None" and p6: "robot_pose st6 = (Num 0.05, Num 0, Num 0)"
    using u by simp_all
  have "and_then (update_particles_with_laser st3 (msg_ranges tour_scan))
            (\<lambda>st4. and_then (resample_particles (publish_particles Lasercloud st4)
                                (resample_draws quiet))
               (\<lambda>st5. and_then (update_robot_pose st5)
                  (\<lambda>st6. (publish_particles Finalcloud (fix_map_to_odom_transform st6), None))))
      = (publish_particles Finalcloud (fix_map_to_odom_transform st6), None)"
    by (simp add: and_then_def l r u e6)
  moreover have "robot_pose (publish_particles Finalcloud (fix_map_to_odom_transform st6))
      = (Num 0.05, Num 0, Num 0)"
    using p6 by (simp add: publish_particles_def fix_map_to_odom_transform_def)
  ultimately show ?thesis unfolding st3_def by blast
qed


theorem scan_received_gate_witness:
  "initialized tour_state
   \<and> can_transform_laser tour_scan \<and> can_transform_odom tour_scan
   \<and> can_transform_laser diag_scan \<and> can_transform_odom diag_scan
   \<and> particle_cloud tour_state \<noteq> []
   \<and> current_odom_xy_theta tour_state = Some (0, 0, 0)
   \<and> moved_enough tour_state (odom_lookup tour_scan) (0, 0, 0)
   \<and> snd (scan_received tour_state tour_scan quiet) = None
   \<and> current_odom_xy_theta (fst (scan_received tour_state tour_scan quiet)) = Some (0.05, 0, 0)
   \<and> length (particle_cloud (fst (scan_received tour_state tour_scan quiet))) = 30
   \<and> robot_pose (fst (scan_received tour_state tour_scan quiet)) = (Num 0.05, Num 0, Num 0)
   \<and> Publish Rawcloud (particle_cloud tour_state)
       \<in> set (drop (length (events tour_state))
                (events (fst (scan_received tour_state tour_scan quiet))))
   \<and> \<not> moved_enough tour_state (odom_lookup diag_scan) (0, 0, 0)
   \<and> particle_cloud (fst (scan_received tour_state diag_scan quiet)) = particle_cloud tour_state
   \<and> robot_pose (fst (scan_received tour_state diag_scan quiet)) = robot_pose tour_state"
proof -
  have i: "initialized tour_state"
    and c: "particle_cloud tour_state \<noteq> []"
    and o: "current_odom_xy_theta tour_state = Some (0, 0, 0)"
    and n: "n_particles tour_state = 30"
    by (simp_all add: tour_state_def base_state_def)
  have t: "can_transform_laser tour_scan" "can_transform_odom tour_scan"
    and lk: "odom_lookup tour_scan = (0.05, 0, 0)"
    by (simp_all add: tour_scan_def)
  have d: "can_transform_laser diag_scan" "can_transform_odom diag_scan"
    by (simp_all add: diag_scan_def)
  have moved: "moved_enough tour_state (odom_lookup tour_scan) (0, 0, 0)"
    by (simp add: moved_enough_def tour_state_def base_state_def tour_scan_def)
  have still: "\<not> moved_enough tour_state (odom_lookup diag_scan) (0, 0, 0)"
    by (simp add: moved_enough_def tour_state_def base_state_def diag_scan_def TAU_def)
  obtain st' err where r: "scan_received tour_state tour_scan quiet = (st', err)"
    by (cases "scan_received tour_state tour_scan quiet")
  note g = scan_received_gate [OF i t c o refl r]
  from tour_cycle obtain st'' where
    "(st', err) = (st'', None)" and p: "robot_pose st'' = (Num 0.05, Num 0, Num 0)"
    using g moved unfolding lk by metis
  then have e: "err = None" and s: "st'' = st'" by simp_all
  have run: "current_odom_xy_theta st' = Some (0.05, 0, 0)
      \<and> length (particle_cloud st') = 30
      \<and> Publish Rawcloud (particle_cloud tour_state)
           \<in> set (drop (length (events tour_state)) (events st'))"
    using g moved e n unfolding lk by metis
  obtain st1 err1 where r1: "scan_received tour_state diag_scan quiet = (st1, err1)"
    by (cases "scan_received tour_state diag_scan quiet")
  have idle: "particle_cloud st1 = particle_cloud tour_state
      \<and> robot_pose st1 = robot_pose tour_state"
    using scan_received_gate [OF i d c o refl r1] still by blast
  show ?thesis
    using i t d c o moved still run idle e p unfolding r r1 s by simp
qed

text \<open>
  C4 (the claim as stated fails). The robot moved by 0.03 along \<open>x\<close> and by 0.03 along
  \<open>y\<close>: the linear displacement, about 0.042, exceeds \<open>d_thresh = 0.04\<close>, yet no cycle
  runs, since neither coordinate changed by more than 0.04. The call publishes the
  unchanged cloud and nothing else.
\<close>

theorem scan_received_diagonal_no_cycle:
  "current_odom_xy_theta diag_state = Some (0, 0, 0)
   \<and> odom_lookup diag_scan = (0.03, 0.03, 0)
   \<and> linear_displacement (0.03, 0.03, 0) (0, 0, 0) > d_thresh diag_state
   \<and> scan_received diag_state diag_scan quiet =
       (diag_state\<lparr>odom_pose := (0.03, 0.03, 0),
                    events := [Publish Finalcloud (particle_cloud diag_state)]\<rparr>, None)"
proof -
  have "(0.04::real) ^ 2 < 0.03 ^ 2 + 0.03 ^ 2" by (simp add: power2_eq_square)
  then have "(0.04::real) < sqrt (0.03 ^ 2 + 0.03 ^ 2)"
    by (rule real_less_rsqrt)
  then have l: "linear_displacement (0.03, 0.03, 0) (0, 0, 0) > d_thresh diag_state"
    by (simp add: linear_displacement_def diag_state_def base_state_def)
  have "scan_received diag_state diag_scan quiet =
       (diag_state\<lparr>odom_pose := (0.03, 0.03, 0),
                    events := [Publish Finalcloud (particle_cloud diag_state)]\<rparr>, None)"
    by (simp add: scan_received_def Let_def and_then_def moved_enough_def publish_particles_def
        diag_state_def base_state_def diag_scan_def TAU_def)
  then show ?thesis
    using l by (simp add: diag_state_def base_state_def diag_scan_def)
qed

text \<open>
  A started cycle that stops before the estimate: on the far map the sensor step leaves
  a \<open>nan\<close> weight, and the resampling raises \<open>ValueError\<close>.
\<close>

lemma scan_received_aborted:
  "snd (scan_received far_tour_state tour_scan quiet) = Some ValueError
   \<and> robot_pose (fst (scan_received far_tour_state tour_scan quiet)) = robot_pose far_tour_state"
proof -
  let ?P = "\<lparr>p_x = 0.05, p_y = 0, p_theta = 0, p_w = Num 1, w_numpy = False\<rparr>"
  define st3 where "st3 = publish_particles Odomcloud
      (update_particles_with_odom
         (publish_particles Rawcloud (far_tour_state\<lparr>odom_pose := (0.05, 0, 0)\<rparr>))
         (odom_noises quiet))"
  have c3: "particle_cloud st3 = [?P]"
    by (simp add: st3_def publish_particles_def update_particles_with_odom_def Let_def
        move_particle_def far_tour_state_def far_state_def base_state_def quiet_def Particle_def
        atan2_def)
  have f3: "occupancy_field st3 = far_map" and n3: "n_particles st3 = 30"
    and p3: "robot_pose st3 = robot_pose far_tour_state"
    by (simp_all add: st3_def publish_particles_def update_particles_with_odom_def Let_def
        far_tour_state_def far_state_def base_state_def)
  have len: "length (filter_laser (replicate 25 (Num 1))) = 25"
    unfolding filter_laser_def by (rule length_filter_laser_replicate)
  then have ge: "num_pt_check \<le> length (filter_laser (replicate 25 (Num 1)))"
    by (simp add: num_pt_check_def)
  have v: "density_loop far_map ?P
        (selected_beams (filter_laser (replicate 25 (Num 1)))) (Num 1) = Inr NaN"
    by (rule weight_far_map [OF ge]) simp
  let ?Q = "\<lparr>p_x = 0.05, p_y = 0, p_theta = 0, p_w = NaN, w_numpy = True\<rparr>"
  define st4 where "st4 = st3\<lparr>particle_cloud := [?Q]\<rparr>"
  have l: "update_particles_with_laser st3 (msg_ranges tour_scan) = (st4, None)"
    using v ge
    by (simp add: update_particles_with_laser_def Let_def tour_scan_def c3 f3 st4_def
        selected_beams_not_empty)
  obtain st5 e5 where r: "resample_particles (publish_particles Lasercloud st4) (resample_draws quiet) = (st5, e5)"
    by (cases "resample_particles (publish_particles Lasercloud st4) (resample_draws quiet)")
  have "snd (resample_particles (publish_particles Lasercloud st4) (resample_draws quiet))
      = Some ValueError"
    by (rule resample_particles_nan_total)
      (simp_all add: publish_particles_def st4_def weight_sum_def n3)
  then have e5: "e5 = Some ValueError" using r by simp
  have p5: "robot_pose st5 = robot_pose far_tour_state"
    using r p3 by (auto simp: resample_particles_def publish_particles_def st4_def split: sum.splits)
  have "scan_received far_tour_state tour_scan quiet =
      and_then (and_then (update_particles_with_laser st3 (msg_ranges tour_scan))
        (\<lambda>st4. and_then (resample_particles (publish_particles Lasercloud st4) (resample_draws quiet))
           (\<lambda>st5. and_then (update_robot_pose st5)
              (\<lambda>st6. (fix_map_to_odom_transform st6, None)))))
        (\<lambda>st7. (publish_particles Finalcloud st7, None))"
    by (simp add: scan_received_def Let_def filter_cycle_def st3_def moved_enough_def
        far_tour_state_def far_state_def base_state_def tour_scan_def Particle_def)
  also have "\<dots> = (st5, Some ValueError)"
    by (simp add: and_then_def l r e5)
  finally show ?thesis using p5 by simp
qed

end
